theory Spec2Isabelle
  imports Complex_Main "HOL-Library.Word" "HOL-Library.Sublist"
begin

section \<open>Spectrogram capture and solid-mesh export of script.js\<close>

text \<open>
  A shallow embedding of the numeric core of \<^verbatim>\<open>script.js\<close>: the frequency-row
  mapping, the colour ramp, the slice normalisation, the scrolling live surface, the
  export click handler and the OBJ mesh builder.

  JavaScript numbers (doubles) are modelled as the real numbers: the rounding of IEEE
  doubles, NaN and the infinities are outside the model. The table \<^verbatim>\<open>zRowPositions\<close>
  is a \<^verbatim>\<open>Float32Array\<close> whose entries stand beside coordinates that the exporter
  computes in doubles, so its stores are narrowed to single precision by \<open>Math_fround\<close>. The other
  single-precision arrays (the slices, the position and colour attributes) are only
  written and copied among themselves and keep the value that was computed.
  \<^verbatim>\<open>Math.pow\<close> is only ever applied to a non-negative base here and is modelled by
  \<open>powr\<close> (which agrees with it on \<open>0\<close>: \<open>0 powr y = 0\<close>).
  The byte array of the analyser is a list of 8-bit words. The text lines of the OBJ and
  MTL files are modelled by the data they print: a vertex by its position, a face by its
  three 1-based vertex indices and its material, a material by its quantised key.
\<close>

subsection \<open>Constants (script.js lines 18-23, 65-75, 99-101, 128-129)\<close>

definition freqBinCount :: nat where
  "freqBinCount = 1024 div 2"

definition pointsPerSlice :: nat where
  "pointsPerSlice = 128"

definition sliceStride :: nat where
  "sliceStride = freqBinCount div pointsPerSlice"

definition activeFrequencyFraction :: real where
  "activeFrequencyFraction = 0.75"

definition frequencyExponent :: real where
  "frequencyExponent = 0.65"

definition noiseFloor :: real where
  "noiseFloor = 0.03"

definition numSlices :: nat where
  "numSlices = 1024"

definition width :: real where
  "width = 400"

definition depth :: real where
  "depth = 80"

definition heightScale :: real where
  "heightScale = 0.6"

definition zMin :: real where
  "zMin = - depth / 2"

definition zMax :: real where
  "zMax = depth / 2"

definition activeRows :: nat where
  "activeRows = max 2 (nat \<lfloor>real pointsPerSlice * activeFrequencyFraction\<rfloor>)"

definition baseThickness :: real where
  "baseThickness = 4"

definition backThickness :: real where
  "backThickness = 6"

text \<open>\<^verbatim>\<open>Math.pow\<close> on a non-negative base.\<close>

definition Math_pow :: "real \<Rightarrow> real \<Rightarrow> real" where
  "Math_pow x y = x powr y"

text \<open>\<^verbatim>\<open>Math.round\<close>: to the nearest integer, a half rounded up.\<close>

definition Math_round :: "real \<Rightarrow> int" where
  "Math_round x = \<lfloor>x + 1 / 2\<rfloor>"

text \<open>
  The store into a \<^verbatim>\<open>Float32Array\<close> (\<^verbatim>\<open>Math.fround\<close>): the nearest single-precision
  number, a tie going to the even significand. With \<open>e\<close> the binary exponent of \<open>x\<close> the
  spacing of the single-precision numbers around \<open>x\<close> is \<open>2\<close> to the power \<open>e - 23\<close>.
  Subnormal numbers and overflow are not modelled: the values stored here lie between
  \<open>-40\<close> and \<open>40\<close>.
\<close>

definition roundTiesToEven :: "real \<Rightarrow> int" where
  "roundTiesToEven y =
     (let f = \<lfloor>y\<rfloor>; d = y - of_int f
      in if d < 1 / 2 then f else if d > 1 / 2 then f + 1 else if even f then f else f + 1)"

definition Math_fround :: "real \<Rightarrow> real" where
  "Math_fround x =
     (if x = 0 then 0
      else (let e = \<lfloor>log 2 \<bar>x\<bar>\<rfloor>; u = 2 powr (of_int e - 23)
            in of_int (roundTiesToEven (x / u)) * u))"

subsection \<open>Row positions of the live view (lines 102-111)\<close>

definition zRowPositions :: "real list" where
  "zRowPositions =
     map (\<lambda>z. if z < activeRows
               then (let t = real z / real (activeRows - 1);
                         tExp = Math_pow t frequencyExponent
                     in Math_fround (zMin + tExp * (zMax - zMin)))
               else Math_fround zMax)
         [0..<pointsPerSlice]"

subsection \<open>Colour ramp (lines 189-216)\<close>

record color =
  r :: real
  g :: real
  b :: real

type_synonym stop = "real \<times> real \<times> real \<times> real"

definition ramp :: "stop list" where
  "ramp = [(0.00, 0.55, 0.00, 0.00),
           (0.15, 1.00, 0.13, 0.00),
           (0.30, 1.00, 0.75, 0.00),
           (0.45, 1.00, 1.00, 0.00),
           (0.65, 0.12, 0.86, 1.00),
           (0.82, 0.00, 0.46, 1.00),
           (1.00, 0.00, 0.12, 0.70)]"

text \<open>The segment search: the first pair of neighbouring stops that encloses \<open>v\<close>
  interpolates; when the loop ends without one, the last stop's colour is returned.\<close>

fun findSegment :: "real \<Rightarrow> stop list \<Rightarrow> color" where
  "findSegment v ((sa, ra, ga, ba) # (sb, rb, gb, bb) # rest) =
     (if v \<ge> sa \<and> v \<le> sb
      then (let t01 = (v - sa) / (sb - sa)
            in \<lparr>r = ra + (rb - ra) * t01, g = ga + (gb - ga) * t01, b = ba + (bb - ba) * t01\<rparr>)
      else findSegment v ((sb, rb, gb, bb) # rest))"
| "findSegment v [(sa, ra, ga, ba)] = \<lparr>r = ra, g = ga, b = ba\<rparr>"
| "findSegment v [] = \<lparr>r = 0, g = 0, b = 0\<rparr>"

definition referenceColorRamp :: "real \<Rightarrow> color" where
  "referenceColorRamp t = (let v = min 1 (max 0 t) in findSegment v ramp)"

subsection \<open>Slice normalisation (lines 135-143)\<close>

type_synonym slice = "real list"

definition normalizeBin :: "8 word list \<Rightarrow> nat \<Rightarrow> real" where
  "normalizeBin freqData i =
     (let srcIndex = min (freqBinCount - 1) (i * sliceStride);
          bin0 = real (unat (freqData ! srcIndex)) / 255;
          bin = (if bin0 < noiseFloor \<and> i \<ge> activeRows then 0 else bin0);
          emphasized = Math_pow bin 1.2
      in emphasized)"

definition normalizeSlice :: "8 word list \<Rightarrow> slice" where
  "normalizeSlice freqData = map (normalizeBin freqData) [0..<pointsPerSlice]"

subsection \<open>The mesh under construction (lines 597-640)\<close>

type_synonym vec3 = "real \<times> real \<times> real"

text \<open>A material name \<^verbatim>\<open>c_<ir>_<ig>_<ib>\<close> is modelled by the quantised triple it prints.\<close>

type_synonym matname = "int \<times> int \<times> int"

text \<open>One \<^verbatim>\<open>usemtl\<close> line and the \<^verbatim>\<open>f\<close> line after it.\<close>

type_synonym face = "matname \<times> nat \<times> nat \<times> nat"

text \<open>
  \<open>vxyz\<close> holds the parallel arrays \<^verbatim>\<open>vx\<close>, \<^verbatim>\<open>vy\<close>, \<^verbatim>\<open>vz\<close> (and so the lines of
  \<^verbatim>\<open>v\<close>), \<open>faces\<close> the lines of \<^verbatim>\<open>f\<close>, \<open>materials\<close> the \<^verbatim>\<open>Map\<close> in insertion order.
\<close>

record builder =
  vxyz :: "vec3 list"
  faces :: "face list"
  materials :: "(matname \<times> color) list"

definition materialNameForColor :: "color \<Rightarrow> builder \<Rightarrow> matname \<times> builder" where
  "materialNameForColor col st =
     (let ir = Math_round (max 0 (min 1 (r col)) * 255);
          ig = Math_round (max 0 (min 1 (g col)) * 255);
          ib = Math_round (max 0 (min 1 (b col)) * 255);
          key = (ir, ig, ib)
      in if map_of (materials st) key = None
         then (key, st\<lparr>materials := materials st @
                 [(key, \<lparr>r = real_of_int ir / 255, g = real_of_int ig / 255, b = real_of_int ib / 255\<rparr>)]\<rparr>)
         else (key, st))"

definition baseColor :: color where
  "baseColor = \<lparr>r = 0.7, g = 0.7, b = 0.7\<rparr>"

text \<open>\<^verbatim>\<open>pushV\<close> stores the position only (its colour arguments are not used) and
  returns the 1-based index of the new vertex.\<close>

definition pushV :: "real \<Rightarrow> real \<Rightarrow> real \<Rightarrow> color \<Rightarrow> builder \<Rightarrow> nat \<times> builder" where
  "pushV x y z col st =
     (let st' = st\<lparr>vxyz := vxyz st @ [(x, y, z)]\<rparr> in (length (vxyz st'), st'))"

definition cross3 :: "vec3 \<Rightarrow> vec3 \<Rightarrow> vec3" where
  "cross3 u w = (case u of (ux, uy, uz) \<Rightarrow> case w of (wx, wy, wz) \<Rightarrow>
     (uy * wz - uz * wy, uz * wx - ux * wz, ux * wy - uy * wx))"

definition dot3 :: "vec3 \<Rightarrow> vec3 \<Rightarrow> real" where
  "dot3 u w = (case u of (ux, uy, uz) \<Rightarrow> case w of (wx, wy, wz) \<Rightarrow>
     ux * wx + uy * wy + uz * wz)"

definition sub3 :: "vec3 \<Rightarrow> vec3 \<Rightarrow> vec3" where
  "sub3 u w = (case u of (ux, uy, uz) \<Rightarrow> case w of (wx, wy, wz) \<Rightarrow>
     (ux - wx, uy - wy, uz - wz))"

definition emitFace :: "nat \<Rightarrow> nat \<Rightarrow> nat \<Rightarrow> vec3 \<Rightarrow> matname \<Rightarrow> builder \<Rightarrow> builder" where
  "emitFace i1 i2 i3 desired matName st =
     (let a = i1 - 1; b = i2 - 1; c = i3 - 1;
          ab = sub3 (vxyz st ! b) (vxyz st ! a);
          ac = sub3 (vxyz st ! c) (vxyz st ! a);
          n = cross3 ab ac;
          dot = dot3 n desired
      in if dot \<ge> 0
         then st\<lparr>faces := faces st @ [(matName, i1, i2, i3)]\<rparr>
         else st\<lparr>faces := faces st @ [(matName, i1, i3, i2)]\<rparr>)"

definition OUT_TOP :: vec3 where "OUT_TOP = (0, 1, 0)"
definition OUT_BOTTOM :: vec3 where "OUT_BOTTOM = (0, -1, 0)"
definition OUT_FRONT :: vec3 where "OUT_FRONT = (0, 0, 1)"
definition OUT_BACK :: vec3 where "OUT_BACK = (0, 0, -1)"
definition OUT_LEFT :: vec3 where "OUT_LEFT = (-1, 0, 0)"
definition OUT_RIGHT :: vec3 where "OUT_RIGHT = (1, 0, 0)"

text \<open>The geometric normal \<open>(p2 - p1) \<times> (p3 - p1)\<close> of a stored face.\<close>

definition faceNormal :: "vec3 list \<Rightarrow> face \<Rightarrow> vec3" where
  "faceNormal ps fc = (case fc of (m, j1, j2, j3) \<Rightarrow>
     cross3 (sub3 (ps ! (j2 - 1)) (ps ! (j1 - 1))) (sub3 (ps ! (j3 - 1)) (ps ! (j1 - 1))))"

subsection \<open>Row positions of the exporter (lines 587-594, 656-663 and again 679-686)\<close>

definition activeRowsCount :: nat where
  "activeRowsCount = max 2 (nat \<lfloor>real pointsPerSlice * activeFrequencyFraction\<rfloor>)"

definition bins :: nat where
  "bins = activeRowsCount + 1"

definition z0 :: real where
  "z0 = - depth / 2"

definition exportZ :: "nat \<Rightarrow> real" where
  "exportZ j =
     (if j < activeRowsCount
      then (let t = real j / real (activeRowsCount - 1);
                tExp = Math_pow t frequencyExponent
            in z0 + tExp * depth)
      else z0 + depth)"

subsection \<open>The export builder \<^verbatim>\<open>buildOBJFromCaptured\<close> (lines 585-867)\<close>

text \<open>
  A loop \<^verbatim>\<open>for (k = 0; k < n; k++)\<close> is a \<open>fold\<close> over \<open>[0..<n]\<close>. The bound
  \<^verbatim>\<open>slices - 1\<close> is \<open>-1\<close> in the source for an empty history and \<open>0\<close> as a natural
  number; both run no iteration (and \<^verbatim>\<open>Array.from({length: -1})\<close> is the empty array).
  A row \<^verbatim>\<open>new Array(bins)\<close> whose cells are then assigned once each in index order is
  the list of the assigned values. The source's variable \<^verbatim>\<open>slice\<close> is written \<open>slc\<close>.
\<close>

datatype error = TypeError

definition dx :: real where
  "dx = width / (real numSlices - 1)"

definition exportWidth :: "nat \<Rightarrow> real" where
  "exportWidth slices = dx * (real slices - 1)"

definition x0 :: "nat \<Rightarrow> real" where
  "x0 slices = - exportWidth slices / 2"

definition flatEps :: real where
  "flatEps = 0.02 * depth * heightScale"

text \<open>The arguments \<open>(x, y, z, c)\<close> of \<^verbatim>\<open>pushV\<close> for the top vertex of row \<open>j\<close>
  (lines 656-668).\<close>

definition topVertex :: "real \<Rightarrow> slice \<Rightarrow> nat \<Rightarrow> real \<times> real \<times> real \<times> color" where
  "topVertex x slc j =
     (let z = exportZ j;
          amp = (if j < activeRowsCount then slc ! j else 0);
          y0 = amp * depth * heightScale;
          y = (if y0 < flatEps then 0 else y0);
          c = referenceColorRamp amp
      in (x, y, z, c))"

fun topVertexStep ::
  "real \<Rightarrow> slice \<Rightarrow> nat \<Rightarrow> nat list \<times> real list \<times> builder \<Rightarrow> nat list \<times> real list \<times> builder" where
  "topVertexStep x slc j (idxRow, yRow, st) =
     (case topVertex x slc j of (x', y, z, c) \<Rightarrow>
        case pushV x' y z c st of (k, st') \<Rightarrow> (idxRow @ [k], yRow @ [y], st'))"

fun topRowStep ::
  "slice list \<Rightarrow> nat \<Rightarrow> nat list list \<times> real list list \<times> builder
     \<Rightarrow> nat list list \<times> real list list \<times> builder" where
  "topRowStep capturedSlices i (indexTop, yTop, st) =
     (let x = x0 (length capturedSlices) + dx * real i;
          slc = capturedSlices ! i
      in case fold (topVertexStep x slc) [0..<bins] ([], [], st) of
           (idxRow, yRow, st') \<Rightarrow> (indexTop @ [idxRow], yTop @ [yRow], st'))"

definition topVertices ::
  "slice list \<Rightarrow> builder \<Rightarrow> nat list list \<times> real list list \<times> builder" where
  "topVertices capturedSlices st =
     fold (topRowStep capturedSlices) [0..<length capturedSlices] ([], [], st)"

fun bottomVertexStep :: "real \<Rightarrow> nat \<Rightarrow> nat list \<times> builder \<Rightarrow> nat list \<times> builder" where
  "bottomVertexStep x j (idxRow, st) =
     (let z = exportZ j
      in case pushV x (- baseThickness) z baseColor st of (k, st') \<Rightarrow> (idxRow @ [k], st'))"

fun bottomRowStep :: "nat \<Rightarrow> nat \<Rightarrow> nat list list \<times> builder \<Rightarrow> nat list list \<times> builder" where
  "bottomRowStep slices i (indexBottom, st) =
     (let x = x0 slices + dx * real i
      in case fold (bottomVertexStep x) [0..<bins] ([], st) of
           (idxRow, st') \<Rightarrow> (indexBottom @ [idxRow], st'))"

definition bottomVertices :: "nat \<Rightarrow> builder \<Rightarrow> nat list list \<times> builder" where
  "bottomVertices slices st = fold (bottomRowStep slices) [0..<slices] ([], st)"

definition flatCells :: "real list list \<Rightarrow> nat \<Rightarrow> bool list list" where
  "flatCells yTop slices =
     map (\<lambda>i. map (\<lambda>j.
            (let y00 = yTop ! i ! j;
                 y10 = yTop ! (i + 1) ! j;
                 y01 = yTop ! i ! (j + 1);
                 y11 = yTop ! (i + 1) ! (j + 1)
             in y00 = 0 \<and> y10 = 0 \<and> y01 = 0 \<and> y11 = 0))
          [0..<bins - 1])
       [0..<slices - 1]"

text \<open>\<^verbatim>\<open>while (iW + 1 < slices - 1 && flatCell[iW + 1][j] && !visited[iW + 1][j]) iW++\<close>\<close>

function growW :: "bool list list \<Rightarrow> bool list list \<Rightarrow> nat \<Rightarrow> nat \<Rightarrow> nat \<Rightarrow> nat" where
  "growW flatCell visited slices j iW =
     (if iW + 1 < slices - 1 \<and> flatCell ! (iW + 1) ! j \<and> \<not> visited ! (iW + 1) ! j
      then growW flatCell visited slices j (iW + 1)
      else iW)"
  by pat_completeness auto
termination
  by (relation "measure (\<lambda>(flatCell, visited, slices, j, iW). slices - 1 - iW)") auto

text \<open>The loop \<^verbatim>\<open>while (grow && jH + 1 < bins - 1)\<close>: its inner \<^verbatim>\<open>for\<close> clears
  \<^verbatim>\<open>grow\<close> at the first cell of row \<open>jH + 1\<close> between \<open>i\<close> and \<open>iW\<close> that is not flat or
  is visited.\<close>

function growH :: "bool list list \<Rightarrow> bool list list \<Rightarrow> nat \<Rightarrow> nat \<Rightarrow> nat \<Rightarrow> nat" where
  "growH flatCell visited i iW jH =
     (if jH + 1 < bins - 1 \<and>
         list_all (\<lambda>k. \<not> (\<not> flatCell ! k ! (jH + 1) \<or> visited ! k ! (jH + 1))) [i..<iW + 1]
      then growH flatCell visited i iW (jH + 1)
      else jH)"
  by pat_completeness auto
termination
  by (relation "measure (\<lambda>(flatCell, visited, i, iW, jH). bins - 1 - jH)") auto

definition markVisited :: "nat \<Rightarrow> nat \<Rightarrow> nat \<Rightarrow> nat \<Rightarrow> bool list list \<Rightarrow> bool list list" where
  "markVisited i iW j jH visited =
     fold (\<lambda>jj vis. fold (\<lambda>ii vis'. vis'[ii := (vis' ! ii)[jj := True]]) [i..<iW + 1] vis)
       [j..<jH + 1] visited"

text \<open>The body of the double loop of lines 706-749 for the cell \<open>(i, j)\<close>.\<close>

definition mergeCell ::
  "nat \<Rightarrow> matname \<Rightarrow> nat list list \<Rightarrow> real list list \<Rightarrow> bool list list \<Rightarrow> nat \<Rightarrow> nat
     \<Rightarrow> bool list list \<times> builder \<Rightarrow> bool list list \<times> builder" where
  "mergeCell slices baseMat indexTop yTop flatCell j i acc =
     (case acc of (visited, st) \<Rightarrow>
        if visited ! i ! j then (visited, st)
        else if \<not> flatCell ! i ! j then
          (let a = indexTop ! i ! j;
               bIdx = indexTop ! (i + 1) ! j;
               cIdx = indexTop ! (i + 1) ! (j + 1);
               d = indexTop ! i ! (j + 1);
               scale = depth * heightScale;
               t1 = (yTop ! i ! j + yTop ! (i + 1) ! j + yTop ! (i + 1) ! (j + 1)) / (3 * scale);
               t2 = (yTop ! i ! j + yTop ! (i + 1) ! (j + 1) + yTop ! i ! (j + 1)) / (3 * scale);
               c1 = referenceColorRamp (max 0 (min 1 t1));
               c2 = referenceColorRamp (max 0 (min 1 t2));
               (m1, st1) = materialNameForColor c1 st;
               st2 = emitFace a bIdx cIdx OUT_TOP m1 st1;
               (m2, st3) = materialNameForColor c2 st2;
               st4 = emitFace a cIdx d OUT_TOP m2 st3
           in (visited[i := (visited ! i)[j := True]], st4))
        else
          (let iW = growW flatCell visited slices j i;
               jH = growH flatCell visited i iW j;
               a = indexTop ! i ! j;
               bIdx = indexTop ! (iW + 1) ! j;
               cIdx = indexTop ! (iW + 1) ! (jH + 1);
               d = indexTop ! i ! (jH + 1);
               st1 = emitFace a bIdx cIdx OUT_TOP baseMat st;
               st2 = emitFace a cIdx d OUT_TOP baseMat st1
           in (markVisited i iW j jH visited, st2)))"

definition mergeLoop ::
  "nat \<Rightarrow> matname \<Rightarrow> nat list list \<Rightarrow> real list list \<Rightarrow> bool list list
     \<Rightarrow> bool list list \<times> builder \<Rightarrow> bool list list \<times> builder" where
  "mergeLoop slices baseMat indexTop yTop flatCell acc =
     fold (\<lambda>j. fold (mergeCell slices baseMat indexTop yTop flatCell j) [0..<slices - 1])
       [0..<bins - 1] acc"

text \<open>Lines 751-760.\<close>

definition frontSeam :: "nat \<Rightarrow> matname \<Rightarrow> nat list list \<Rightarrow> builder \<Rightarrow> builder" where
  "frontSeam slices baseMat indexTop st =
     (let jBoundary = max 0 (min (bins - 2) (activeRowsCount - 1))
      in fold (\<lambda>i s.
           (let a0 = indexTop ! i ! jBoundary;
                a1 = indexTop ! (i + 1) ! jBoundary;
                b0 = indexTop ! i ! (jBoundary + 1);
                b1 = indexTop ! (i + 1) ! (jBoundary + 1)
            in emitFace a0 b1 b0 OUT_FRONT baseMat (emitFace a0 a1 b1 OUT_FRONT baseMat s)))
         [0..<slices - 1] st)"

text \<open>Lines 762-772.\<close>

definition bottomSurface :: "nat \<Rightarrow> matname \<Rightarrow> nat list list \<Rightarrow> builder \<Rightarrow> builder" where
  "bottomSurface slices baseMat indexBottom st =
     fold (\<lambda>i. fold (\<lambda>j s.
           (let a = indexBottom ! i ! j;
                b = indexBottom ! (i + 1) ! j;
                c = indexBottom ! (i + 1) ! (j + 1);
                d = indexBottom ! i ! (j + 1)
            in emitFace a c d OUT_BOTTOM baseMat (emitFace a b c OUT_BOTTOM baseMat s)))
         [0..<bins - 1])
       [0..<slices - 1] st"

text \<open>Lines 776-784 (\<open>jj = 0\<close>, \<open>OUT_BACK\<close>) and 790-798 (\<open>jj = bins - 1\<close>, \<open>OUT_FRONT\<close>).\<close>

definition edgeWall ::
  "nat \<Rightarrow> nat \<Rightarrow> vec3 \<Rightarrow> matname \<Rightarrow> nat list list \<Rightarrow> nat list list \<Rightarrow> builder \<Rightarrow> builder" where
  "edgeWall slices jj out baseMat indexTop indexBottom st =
     fold (\<lambda>i s.
         (let aTop = indexTop ! i ! jj;
              bTop = indexTop ! (i + 1) ! jj;
              aBot = indexBottom ! i ! jj;
              bBot = indexBottom ! (i + 1) ! jj
          in emitFace aTop bBot bTop out baseMat (emitFace aTop aBot bBot out baseMat s)))
       [0..<slices - 1] st"

text \<open>\<^verbatim>\<open>arr[i]\<close> as the receiver of a further index: reading an element of
  \<^verbatim>\<open>undefined\<close> throws a TypeError.\<close>

definition rowOf :: "'a list list \<Rightarrow> nat \<Rightarrow> error + 'a list" where
  "rowOf arr i = (if i < length arr then Inr (arr ! i) else Inl TypeError)"

text \<open>Lines 801-815. The \<open>z\<close> computed there is not used. For an empty history
  \<^verbatim>\<open>indexBottom[0]\<close> is undefined and the first iteration throws.\<close>

definition sideBottoms :: "nat list list \<Rightarrow> nat \<Rightarrow> error + (nat list \<times> nat list)" where
  "sideBottoms indexBottom slices =
     (case rowOf indexBottom 0 of
        Inl e \<Rightarrow> Inl e
      | Inr rowL \<Rightarrow>
          (case rowOf indexBottom (slices - 1) of
             Inl e \<Rightarrow> Inl e
           | Inr rowR \<Rightarrow> Inr (map (\<lambda>j. rowL ! j) [0..<bins], map (\<lambda>j. rowR ! j) [0..<bins])))"

text \<open>Lines 817-825 (\<open>ii = 0\<close>, \<open>OUT_LEFT\<close>) and 830-838 (\<open>ii = slices - 1\<close>, \<open>OUT_RIGHT\<close>).\<close>

definition sideWall ::
  "nat \<Rightarrow> vec3 \<Rightarrow> matname \<Rightarrow> nat list list \<Rightarrow> nat list \<Rightarrow> builder \<Rightarrow> builder" where
  "sideWall ii out baseMat indexTop sideBottom st =
     fold (\<lambda>j s.
         (let aTop = indexTop ! ii ! j;
              bTop = indexTop ! ii ! (j + 1);
              aBot = sideBottom ! j;
              bBot = sideBottom ! (j + 1)
          in emitFace aTop bBot bTop out baseMat (emitFace aTop aBot bBot out baseMat s)))
       [0..<bins - 1] st"

text \<open>Lines 827-828: \<^verbatim>\<open>Ensure seam closed at top/bottom of left wall\<close>.\<close>

definition leftSeam :: "matname \<Rightarrow> nat list list \<Rightarrow> nat list \<Rightarrow> builder \<Rightarrow> builder" where
  "leftSeam baseMat indexTop sideBottomLeft st =
     emitFace (indexTop ! 0 ! (bins - 2)) (sideBottomLeft ! (bins - 1)) (sideBottomLeft ! (bins - 2))
       OUT_LEFT baseMat
       (emitFace (indexTop ! 0 ! (bins - 2)) (indexTop ! 0 ! (bins - 1)) (sideBottomLeft ! (bins - 1))
          OUT_LEFT baseMat st)"

text \<open>Lines 839-840.\<close>

definition rightSeam :: "nat \<Rightarrow> matname \<Rightarrow> nat list list \<Rightarrow> nat list \<Rightarrow> builder \<Rightarrow> builder" where
  "rightSeam slices baseMat indexTop sideBottomRight st =
     emitFace (indexTop ! (slices - 1) ! (bins - 1)) (sideBottomRight ! (bins - 2))
       (sideBottomRight ! (bins - 1)) OUT_RIGHT baseMat
       (emitFace (indexTop ! (slices - 1) ! (bins - 2)) (sideBottomRight ! (bins - 2))
          (indexTop ! (slices - 1) ! (bins - 1)) OUT_RIGHT baseMat st)"

text \<open>Lines 854-855: \<^verbatim>\<open>Ensure baseMat defined\<close>.\<close>

definition ensureBaseMaterial :: "matname \<Rightarrow> builder \<Rightarrow> builder" where
  "ensureBaseMaterial baseMat st =
     (let baseKey = (Math_round (r baseColor * 255), Math_round (g baseColor * 255),
                     Math_round (b baseColor * 255))
      in if map_of (materials st) baseKey = None
         then st\<lparr>materials := materials st @ [(baseKey, baseColor)]\<rparr>
         else st)"

text \<open>
  The builder. Its result stands for the pair \<^verbatim>\<open>{ objText, mtlText }\<close>: \<open>vxyz\<close> and
  \<open>faces\<close> are the \<^verbatim>\<open>v\<close> and \<^verbatim>\<open>f\<close> lines of the OBJ text, \<open>materials\<close> the blocks of
  the MTL text. The history is only read.
\<close>

definition buildOBJFromCaptured :: "slice list \<Rightarrow> error + builder" where
  "buildOBJFromCaptured capturedSlices =
     (let slices = length capturedSlices;
          st0 = \<lparr>vxyz = [], faces = [], materials = []\<rparr>;
          (baseMat, st1) = materialNameForColor baseColor st0;
          (indexTop, yTop, st2) = topVertices capturedSlices st1;
          (indexBottom, st3) = bottomVertices slices st2;
          flatCell = flatCells yTop slices;
          visited0 = replicate (slices - 1) (replicate (bins - 1) False);
          (visited, st4) = mergeLoop slices baseMat indexTop yTop flatCell (visited0, st3);
          st5 = frontSeam slices baseMat indexTop st4;
          st6 = bottomSurface slices baseMat indexBottom st5;
          st7 = edgeWall slices 0 OUT_BACK baseMat indexTop indexBottom st6;
          st8 = edgeWall slices (bins - 1) OUT_FRONT baseMat indexTop indexBottom st7
      in case sideBottoms indexBottom slices of
           Inl e \<Rightarrow> Inl e
         | Inr (sideBottomLeft, sideBottomRight) \<Rightarrow>
             (let st9 = sideWall 0 OUT_LEFT baseMat indexTop sideBottomLeft st8;
                  st10 = leftSeam baseMat indexTop sideBottomLeft st9;
                  st11 = sideWall (slices - 1) OUT_RIGHT baseMat indexTop sideBottomRight st10;
                  st12 = rightSeam slices baseMat indexTop sideBottomRight st11
              in Inr (ensureBaseMaterial baseMat st12)))"

subsection \<open>Edges of a face list\<close>

text \<open>The three undirected edges of a face, and the number of faces an edge lies on.\<close>

definition faceEdges :: "face \<Rightarrow> (nat \<times> nat) list" where
  "faceEdges fc = (case fc of (m, j1, j2, j3) \<Rightarrow> [(j1, j2), (j2, j3), (j3, j1)])"

definition sameEdge :: "nat \<times> nat \<Rightarrow> nat \<times> nat \<Rightarrow> bool" where
  "sameEdge e e' = (e = e' \<or> e = (snd e', fst e'))"

definition hasEdge :: "nat \<times> nat \<Rightarrow> face \<Rightarrow> bool" where
  "hasEdge e fc = list_ex (sameEdge e) (faceEdges fc)"

definition edgeCount :: "face list \<Rightarrow> nat \<times> nat \<Rightarrow> nat" where
  "edgeCount fcs e = length (filter (hasEdge e) fcs)"

text \<open>Every edge of every face lies on exactly two faces.\<close>

definition watertight :: "face list \<Rightarrow> bool" where
  "watertight fcs = list_all (\<lambda>fc. list_all (\<lambda>e. edgeCount fcs e = 2) (faceEdges fc)) fcs"

subsection \<open>Application state: capture, live surface, export click\<close>

text \<open>
  \<open>posArray\<close> is \<^verbatim>\<open>positionAttr.array\<close> (three numbers per vertex, row-major: vertex
  \<open>z * numSlices + x\<close>) and \<open>colors\<close> the colour attribute of the live plane.
  \<open>finalGeometry\<close> is the position array of the geometry that \<^verbatim>\<open>finalizeModelGeometry\<close>
  has put in the variable \<^verbatim>\<open>geometry\<close>, and \<open>None\<close> while that variable still refers to the
  live plane. The analyser's bytes for a tick are an argument.
\<close>

record app =
  isCapturing :: bool
  capturedSlices :: "slice list"
  posArray :: "real list"
  colors :: "real list"
  finalGeometry :: "real list option"

text \<open>The inner loop body of lines 156-166.\<close>

definition shiftVertex :: "nat \<Rightarrow> nat \<Rightarrow> app \<Rightarrow> app" where
  "shiftVertex rowStartVertex x st =
     (let fromV = rowStartVertex + x + 1;
          toV = rowStartVertex + x;
          pa = (posArray st)[toV * 3 + 1 := posArray st ! (fromV * 3 + 1)];
          fromC = fromV * 3;
          toC = toV * 3;
          c0 = (colors st)[toC + 0 := colors st ! (fromC + 0)];
          c1 = c0[toC + 1 := c0 ! (fromC + 1)];
          c2 = c1[toC + 2 := c1 ! (fromC + 2)]
      in st\<lparr>posArray := pa, colors := c2\<rparr>)"

text \<open>The outer loop body of lines 153-180.\<close>

definition updateRow :: "slice \<Rightarrow> nat \<Rightarrow> app \<Rightarrow> app" where
  "updateRow newSlice z st =
     (let rowSize = numSlices;
          rowStartVertex = z * rowSize;
          st1 = fold (shiftVertex rowStartVertex) [0..<rowSize - 1] st;
          lastV = rowStartVertex + rowSize - 1;
          y = newSlice ! z * depth * heightScale;
          pa = (posArray st1)[lastV * 3 + 1 := y];
          t = newSlice ! z;
          col = referenceColorRamp t;
          lastC = lastV * 3;
          cs = (colors st1)[lastC + 0 := r col, lastC + 1 := g col, lastC + 2 := b col]
      in st1\<lparr>posArray := pa, colors := cs\<rparr>)"

text \<open>Lines 150-184: the shift of the live surface by one column.\<close>

definition advance :: "slice \<Rightarrow> app \<Rightarrow> app" where
  "advance newSlice st = fold (updateRow newSlice) [0..<pointsPerSlice] st"

definition updateSurfaceFromFrequencies :: "8 word list \<Rightarrow> app \<Rightarrow> app" where
  "updateSurfaceFromFrequencies freqData st =
     (let newSlice = normalizeSlice freqData;
          st1 = (if isCapturing st then st\<lparr>capturedSlices := capturedSlices st @ [newSlice]\<rparr> else st)
      in advance newSlice st1)"

text \<open>The height and the colour of the live surface at row \<open>z\<close>, column \<open>x\<close>.\<close>

definition heightAt :: "app \<Rightarrow> nat \<Rightarrow> nat \<Rightarrow> real" where
  "heightAt st z x = posArray st ! ((z * numSlices + x) * 3 + 1)"

definition colorAt :: "app \<Rightarrow> nat \<Rightarrow> nat \<Rightarrow> color" where
  "colorAt st z x =
     \<lparr>r = colors st ! ((z * numSlices + x) * 3 + 0),
      g = colors st ! ((z * numSlices + x) * 3 + 1),
      b = colors st ! ((z * numSlices + x) * 3 + 2)\<rparr>"

definition surfaceSized :: "app \<Rightarrow> bool" where
  "surfaceSized st =
     (length (posArray st) = pointsPerSlice * numSlices * 3 \<and>
      length (colors st) = pointsPerSlice * numSlices * 3)"

text \<open>\<^verbatim>\<open>geometry.attributes.position\<close>: its array; \<^verbatim>\<open>count\<close> is a third of the length
  and \<^verbatim>\<open>getY(idx)\<close> is the element \<open>idx * 3 + 1\<close>.\<close>

definition geometryPosition :: "app \<Rightarrow> real list" where
  "geometryPosition st = (case finalGeometry st of None \<Rightarrow> posArray st | Some p \<Rightarrow> p)"

text \<open>Lines 567-582.\<close>

definition synthesizeCapturedFromSurface :: "app \<Rightarrow> app" where
  "synthesizeCapturedFromSurface st =
     (let pos = geometryPosition st;
          totalVertices = length pos div 3;
          slices = max 2 (totalVertices div pointsPerSlice)
      in st\<lparr>capturedSlices :=
              map (\<lambda>x. map (\<lambda>z.
                     (let idx = z * slices + x;
                          y = pos ! (idx * 3 + 1)
                      in max 0 (min 1 (y / (depth * heightScale)))))
                   [0..<pointsPerSlice])
                [0..<slices]\<rparr>)"

text \<open>Lines 519-528: the click handler of the export button. The two downloads receive
  the texts of the builder's result and change nothing.\<close>

definition exportClick :: "app \<Rightarrow> app \<times> (error + builder)" where
  "exportClick st =
     (let st' = (if length (capturedSlices st) < 2 then synthesizeCapturedFromSurface st else st)
      in (st', buildOBJFromCaptured (capturedSlices st')))"

subsection \<open>Auxiliary notions for the proofs\<close>

text \<open>A later builder state keeps the vertices and only appends faces.\<close>

definition extends :: "builder \<Rightarrow> builder \<Rightarrow> bool" where
  "extends st st' = (vxyz st' = vxyz st \<and> prefix (faces st) (faces st'))"

text \<open>The height of a top vertex, the index grid handed out by \<open>pushV\<close>, and the
  positions the two vertex loops push, in closed form.\<close>

definition topY :: "slice \<Rightarrow> nat \<Rightarrow> real" where
  "topY slc j = fst (snd (topVertex 0 slc j))"

definition indexGrid :: "nat \<Rightarrow> nat \<Rightarrow> nat list list" where
  "indexGrid base n = map (\<lambda>i. map (\<lambda>j. base + i * bins + j + 1) [0..<bins]) [0..<n]"

definition topPositions :: "slice list \<Rightarrow> nat \<Rightarrow> vec3 list" where
  "topPositions h n =
     concat (map (\<lambda>i. map (\<lambda>j. (x0 (length h) + dx * real i, topY (h ! i) j, exportZ j)) [0..<bins])
               [0..<n])"

definition bottomPositions :: "nat \<Rightarrow> nat \<Rightarrow> vec3 list" where
  "bottomPositions slices n =
     concat (map (\<lambda>i. map (\<lambda>j. (x0 slices + dx * real i, - baseThickness, exportZ j)) [0..<bins])
               [0..<n])"

definition baseMatName :: matname where
  "baseMatName = fst (materialNameForColor baseColor \<lparr>vxyz = [], faces = [], materials = []\<rparr>)"

definition sideRow :: "nat \<Rightarrow> nat \<Rightarrow> nat list" where
  "sideRow n i = map (\<lambda>j. indexGrid (n * bins) n ! i ! j) [0..<bins]"

text \<open>The builder's state after the back and front walls (\<open>st8\<close> there).\<close>

definition beforeSideWalls :: "slice list \<Rightarrow> builder" where
  "beforeSideWalls h =
     (let n = length h;
          st1 = snd (materialNameForColor baseColor \<lparr>vxyz = [], faces = [], materials = []\<rparr>);
          pt = topVertices h st1;
          pb = bottomVertices n (snd (snd pt));
          st4 = snd (mergeLoop n baseMatName (fst pt) (fst (snd pt)) (flatCells (fst (snd pt)) n)
                       (replicate (n - 1) (replicate (bins - 1) False), snd pb));
          st5 = frontSeam n baseMatName (fst pt) st4;
          st6 = bottomSurface n baseMatName (fst pb) st5;
          st7 = edgeWall n 0 OUT_BACK baseMatName (fst pt) (fst pb) st6
      in edgeWall n (bins - 1) OUT_FRONT baseMatName (fst pt) (fst pb) st7)"

text \<open>The height and the colour components stored for vertex \<open>v\<close> of the live surface.\<close>

definition vY :: "app \<Rightarrow> nat \<Rightarrow> real" where
  "vY st v = posArray st ! (v * 3 + 1)"

definition vC :: "app \<Rightarrow> nat \<Rightarrow> nat \<Rightarrow> real" where
  "vC st v c = colors st ! (v * 3 + c)"

subsection \<open>Facts about the constants\<close>

lemma activeRows_eq: "activeRows = 96"
  by (simp add: activeRows_def pointsPerSlice_def activeFrequencyFraction_def)

lemma sliceStride_eq: "sliceStride = 4"
  by (simp add: sliceStride_def freqBinCount_def pointsPerSlice_def)

lemma zRowPositions_length: "length zRowPositions = pointsPerSlice"
  by (simp add: zRowPositions_def)

lemma zRowPositions_nth:
  "z < pointsPerSlice \<Longrightarrow>
   zRowPositions ! z =
     (if z < activeRows
      then Math_fround (zMin + Math_pow (real z / real (activeRows - 1)) frequencyExponent * (zMax - zMin))
      else Math_fround zMax)"
  by (simp add: zRowPositions_def Let_def)

lemma referenceColorRamp_zero: "referenceColorRamp 0 = \<lparr>r = 0.55, g = 0, b = 0\<rparr>"
  by (simp add: referenceColorRamp_def ramp_def)

lemma referenceColorRamp_one: "referenceColorRamp 1 = \<lparr>r = 0, g = 0.12, b = 0.70\<rparr>"
  by (simp add: referenceColorRamp_def ramp_def)

subsection \<open>Facts about the builder\<close>

lemma bins_eq: "bins = 97"
  by (simp add: bins_def activeRowsCount_def pointsPerSlice_def activeFrequencyFraction_def)

lemma activeRowsCount_eq: "activeRowsCount = 96"
  by (simp add: activeRowsCount_def pointsPerSlice_def activeFrequencyFraction_def)

lemma vxyz_emitFace [simp]: "vxyz (emitFace i1 i2 i3 d m st) = vxyz st"
  by (simp add: emitFace_def Let_def)

lemma materials_emitFace [simp]: "materials (emitFace i1 i2 i3 d m st) = materials st"
  by (simp add: emitFace_def Let_def)

lemma faces_emitFace:
  "faces (emitFace i1 i2 i3 d m st) = faces st @ [(m, i1, i2, i3)] \<or>
   faces (emitFace i1 i2 i3 d m st) = faces st @ [(m, i1, i3, i2)]"
  by (simp add: emitFace_def Let_def)

lemma vxyz_materialNameForColor [simp]: "vxyz (snd (materialNameForColor c st)) = vxyz st"
  by (simp add: materialNameForColor_def Let_def)

lemma faces_materialNameForColor [simp]: "faces (snd (materialNameForColor c st)) = faces st"
  by (simp add: materialNameForColor_def Let_def)

lemma extends_refl [simp]: "extends st st"
  by (simp add: extends_def)

lemma extends_trans: "extends a b' \<Longrightarrow> extends b' c' \<Longrightarrow> extends a c'"
  by (auto simp: extends_def)

lemma extends_emitFace [simp]: "extends st (emitFace i1 i2 i3 d m st)"
  using faces_emitFace [of i1 i2 i3 d m st] by (auto simp: extends_def)

lemma extends_emitFace2: "extends st s \<Longrightarrow> extends st (emitFace i1 i2 i3 d m s)"
  by (erule extends_trans) simp

lemma extends_materialNameForColor [simp]: "extends st (snd (materialNameForColor c st))"
  by (simp add: extends_def)

lemma extends_fold:
  assumes "\<And>x s. extends s (f x s)"
  shows "extends st (fold f xs st)"
proof (induction xs arbitrary: st)
  case Nil
  show ?case by simp
next
  case (Cons x xs)
  have "extends st (f x st)" by (rule assms)
  moreover have "extends (f x st) (fold f xs (f x st))" by (rule Cons.IH)
  ultimately show ?case by (auto intro: extends_trans)
qed

lemma extends_snd_fold:
  assumes "\<And>x acc. extends (snd acc) (snd (f x acc))"
  shows "extends (snd acc) (snd (fold f xs acc))"
proof (induction xs arbitrary: acc)
  case Nil
  show ?case by simp
next
  case (Cons x xs)
  have "extends (snd acc) (snd (f x acc))" by (rule assms)
  moreover have "extends (snd (f x acc)) (snd (fold f xs (f x acc)))" by (rule Cons.IH)
  ultimately show ?case by (auto intro: extends_trans)
qed

lemma extends_materialNameForColor2:
  "extends st s \<Longrightarrow> extends st (snd (materialNameForColor c s))"
  by (erule extends_trans) simp

lemma extends_mergeCell:
  "extends (snd acc) (snd (mergeCell slices bm it yt fc j i acc))"
proof (cases acc)
  case (Pair visited st)
  show ?thesis
    unfolding Pair mergeCell_def Let_def split_beta
    by (simp add: extends_emitFace2 extends_materialNameForColor2)
qed

lemma extends_mergeLoop:
  "extends (snd acc) (snd (mergeLoop slices bm it yt fc acc))"
  unfolding mergeLoop_def
  by (intro extends_snd_fold extends_mergeCell)

lemma extends_frontSeam: "extends st (frontSeam slices bm it st)"
  unfolding frontSeam_def Let_def
  by (intro extends_fold extends_emitFace2) simp

lemma extends_bottomSurface: "extends st (bottomSurface slices bm ib st)"
  unfolding bottomSurface_def Let_def
  by (intro extends_fold extends_emitFace2) simp

lemma extends_edgeWall: "extends st (edgeWall slices jj out bm it ib st)"
  unfolding edgeWall_def Let_def
  by (intro extends_fold extends_emitFace2) simp

lemma extends_sideWall: "extends st (sideWall ii out bm it sb st)"
  unfolding sideWall_def Let_def
  by (intro extends_fold extends_emitFace2) simp

lemma extends_leftSeam: "extends st (leftSeam bm it sb st)"
  unfolding leftSeam_def by (intro extends_emitFace2) simp

lemma extends_rightSeam: "extends st (rightSeam slices bm it sb st)"
  unfolding rightSeam_def by (intro extends_emitFace2) simp

lemma extends_ensureBaseMaterial: "extends st (ensureBaseMaterial bm st)"
  by (simp add: ensureBaseMaterial_def extends_def Let_def)

lemma topVertex_eq:
  "topVertex x slc j =
     (x, topY slc j, exportZ j, referenceColorRamp (if j < activeRowsCount then slc ! j else 0))"
  by (simp add: topVertex_def topY_def Let_def)

lemma builder_vxyz_append_Nil [simp]: "st\<lparr>vxyz := vxyz st\<rparr> = (st :: builder)"
  by simp

lemma fold_topVertexStep:
  "fold (topVertexStep x slc) [0..<n] (ir, yr, st) =
     (ir @ map (\<lambda>j. length (vxyz st) + j + 1) [0..<n],
      yr @ map (topY slc) [0..<n],
      st\<lparr>vxyz := vxyz st @ map (\<lambda>j. (x, topY slc j, exportZ j)) [0..<n]\<rparr>)"
  by (induction n) (simp_all add: topVertex_eq pushV_def Let_def)

lemma length_topPositions [simp]: "length (topPositions h n) = n * bins"
  by (induction n) (simp_all add: topPositions_def)

lemma length_bottomPositions [simp]: "length (bottomPositions s n) = n * bins"
  by (induction n) (simp_all add: bottomPositions_def)

lemma topPositions_Suc:
  "topPositions h (Suc n) =
     topPositions h n @ map (\<lambda>j. (x0 (length h) + dx * real n, topY (h ! n) j, exportZ j)) [0..<bins]"
  by (simp add: topPositions_def)

lemma bottomPositions_Suc:
  "bottomPositions s (Suc n) =
     bottomPositions s n @ map (\<lambda>j. (x0 s + dx * real n, - baseThickness, exportZ j)) [0..<bins]"
  by (simp add: bottomPositions_def)

lemma indexGrid_Suc:
  "indexGrid base (Suc n) = indexGrid base n @ [map (\<lambda>j. base + n * bins + j + 1) [0..<bins]]"
  by (simp add: indexGrid_def)

lemma fold_topRowStep:
  "fold (topRowStep h) [0..<n] (IT, YT, st) =
     (IT @ indexGrid (length (vxyz st)) n,
      YT @ map (\<lambda>i. map (topY (h ! i)) [0..<bins]) [0..<n],
      st\<lparr>vxyz := vxyz st @ topPositions h n\<rparr>)"
proof (induction n)
  case 0
  show ?case by (simp add: indexGrid_def topPositions_def)
next
  case (Suc n)
  show ?case
    by (simp add: Suc.IH Let_def fold_topVertexStep topPositions_Suc indexGrid_Suc add.assoc)
qed

lemma topVertices_eq:
  "topVertices h st =
     (indexGrid (length (vxyz st)) (length h),
      map (\<lambda>i. map (topY (h ! i)) [0..<bins]) [0..<length h],
      st\<lparr>vxyz := vxyz st @ topPositions h (length h)\<rparr>)"
  by (simp add: topVertices_def fold_topRowStep)

lemma fold_bottomVertexStep:
  "fold (bottomVertexStep x) [0..<n] (ir, st) =
     (ir @ map (\<lambda>j. length (vxyz st) + j + 1) [0..<n],
      st\<lparr>vxyz := vxyz st @ map (\<lambda>j. (x, - baseThickness, exportZ j)) [0..<n]\<rparr>)"
  by (induction n) (simp_all add: pushV_def Let_def)

lemma fold_bottomRowStep:
  "fold (bottomRowStep s) [0..<n] (IB, st) =
     (IB @ indexGrid (length (vxyz st)) n, st\<lparr>vxyz := vxyz st @ bottomPositions s n\<rparr>)"
proof (induction n)
  case 0
  show ?case by (simp add: indexGrid_def bottomPositions_def)
next
  case (Suc n)
  show ?case
    by (simp add: Suc.IH Let_def fold_bottomVertexStep bottomPositions_Suc indexGrid_Suc add.assoc)
qed

lemma bottomVertices_eq:
  "bottomVertices s st =
     (indexGrid (length (vxyz st)) s, st\<lparr>vxyz := vxyz st @ bottomPositions s s\<rparr>)"
  by (simp add: bottomVertices_def fold_bottomRowStep)

lemma indexGrid_nth:
  "i < n \<Longrightarrow> j < bins \<Longrightarrow> indexGrid base n ! i ! j = base + i * bins + j + 1"
  by (simp add: indexGrid_def)

lemma length_indexGrid [simp]: "length (indexGrid base n) = n"
  by (simp add: indexGrid_def)

lemma grid_index_less:
  fixes i j n w :: nat
  assumes "i < n" and "j < w"
  shows "i * w + j < n * w"
proof -
  have "i * w + j < Suc i * w"
    using assms(2) by simp
  also have "\<dots> \<le> n * w"
    using assms(1) by (intro mult_le_mono1) simp
  finally show ?thesis .
qed

lemma topPositions_nth:
  "i < n \<Longrightarrow> j < bins \<Longrightarrow>
   topPositions h n ! (i * bins + j) = (x0 (length h) + dx * real i, topY (h ! i) j, exportZ j)"
proof (induction n)
  case 0
  then show ?case by simp
next
  case (Suc n)
  show ?case
  proof (cases "i < n")
    case True
    then have "i * bins + j < n * bins"
      using Suc.prems(2) by (rule grid_index_less)
    with True Suc show ?thesis
      by (simp add: topPositions_Suc nth_append)
  next
    case False
    with Suc.prems have "i = n" by simp
    with Suc.prems show ?thesis
      by (simp add: topPositions_Suc nth_append)
  qed
qed

lemma bottomPositions_nth:
  "i < n \<Longrightarrow> j < bins \<Longrightarrow>
   bottomPositions s n ! (i * bins + j) = (x0 s + dx * real i, - baseThickness, exportZ j)"
proof (induction n)
  case 0
  then show ?case by simp
next
  case (Suc n)
  show ?case
  proof (cases "i < n")
    case True
    then have "i * bins + j < n * bins"
      using Suc.prems(2) by (rule grid_index_less)
    with True Suc show ?thesis
      by (simp add: bottomPositions_Suc nth_append)
  next
    case False
    with Suc.prems have "i = n" by simp
    with Suc.prems show ?thesis
      by (simp add: bottomPositions_Suc nth_append)
  qed
qed

lemma vxyz_base [simp]:
  "vxyz (snd (materialNameForColor baseColor \<lparr>vxyz = [], faces = [], materials = []\<rparr>)) = []"
  by simp

lemma vxyz_beforeSideWalls:
  "vxyz (beforeSideWalls h) = topPositions h (length h) @ bottomPositions (length h) (length h)"
proof -
  let ?n = "length h"
  let ?st1 = "snd (materialNameForColor baseColor \<lparr>vxyz = [], faces = [], materials = []\<rparr>)"
  let ?pt = "topVertices h ?st1"
  let ?pb = "bottomVertices ?n (snd (snd ?pt))"
  have v3: "vxyz (snd ?pb) = topPositions h ?n @ bottomPositions ?n ?n"
    by (simp add: topVertices_eq bottomVertices_eq)
  have "extends (snd ?pb) (beforeSideWalls h)"
    unfolding beforeSideWalls_def Let_def
    by (intro extends_trans [OF _ extends_edgeWall] extends_trans [OF _ extends_bottomSurface]
          extends_trans [OF _ extends_frontSeam])
       (rule extends_mergeLoop [of "(vis, snd ?pb)" for vis, simplified])
  then show ?thesis
    using v3 by (simp add: extends_def)
qed

lemma build_nonempty:
  assumes "h \<noteq> []"
  shows "buildOBJFromCaptured h =
     Inr (ensureBaseMaterial baseMatName
           (rightSeam (length h) baseMatName (indexGrid 0 (length h)) (sideRow (length h) (length h - 1))
             (sideWall (length h - 1) OUT_RIGHT baseMatName (indexGrid 0 (length h))
                (sideRow (length h) (length h - 1))
               (leftSeam baseMatName (indexGrid 0 (length h)) (sideRow (length h) 0)
                 (sideWall 0 OUT_LEFT baseMatName (indexGrid 0 (length h)) (sideRow (length h) 0)
                   (beforeSideWalls h))))))"
proof -
  from assms have n: "0 < length h" by simp
  have it: "fst (topVertices h st) = indexGrid (length (vxyz st)) (length h)" for st
    by (simp add: topVertices_eq)
  have ib: "fst (bottomVertices (length h) (snd (snd (topVertices h st)))) =
              indexGrid (length (vxyz st) + length h * bins) (length h)" for st
    by (simp add: topVertices_eq bottomVertices_eq)
  show ?thesis
    unfolding buildOBJFromCaptured_def beforeSideWalls_def Let_def split_beta baseMatName_def
      sideRow_def
    using n by (simp add: it ib sideBottoms_def rowOf_def)
qed

lemma build_empty: "buildOBJFromCaptured [] = Inl TypeError"
  unfolding buildOBJFromCaptured_def Let_def split_beta
  by (simp add: sideBottoms_def rowOf_def bottomVertices_def)

lemma edgeCount_append: "edgeCount (xs @ ys) e = edgeCount xs e + edgeCount ys e"
  by (simp add: edgeCount_def)

lemma edgeCount_prefix: "prefix xs ys \<Longrightarrow> edgeCount xs e \<le> edgeCount ys e"
  by (auto simp: prefix_def edgeCount_append)

lemma edgeCount_extends: "extends st st' \<Longrightarrow> edgeCount (faces st) e \<le> edgeCount (faces st') e"
  by (simp add: extends_def edgeCount_prefix)

lemma hasEdge_cases:
  "hasEdge (p, q) (m, j1, j2, j3) \<longleftrightarrow>
     (p = j1 \<and> q = j2) \<or> (p = j2 \<and> q = j1) \<or> (p = j2 \<and> q = j3) \<or> (p = j3 \<and> q = j2) \<or>
     (p = j3 \<and> q = j1) \<or> (p = j1 \<and> q = j3)"
  by (auto simp: hasEdge_def faceEdges_def sameEdge_def)

lemma emitFace_adds_edge:
  assumes "(p = i1 \<or> p = i2 \<or> p = i3) \<and> (q = i1 \<or> q = i2 \<or> q = i3) \<and> p \<noteq> q"
  shows "\<exists>fc. faces (emitFace i1 i2 i3 d m st) = faces st @ [fc] \<and> hasEdge (p, q) fc"
proof -
  have kept: "hasEdge (p, q) (m, i1, i2, i3)"
    using assms unfolding hasEdge_cases by blast
  have swapped: "hasEdge (p, q) (m, i1, i3, i2)"
    using assms unfolding hasEdge_cases by blast
  from faces_emitFace [of i1 i2 i3 d m st] kept swapped show ?thesis
    by blast
qed

lemma edgeCount_emitFace:
  assumes "(p = i1 \<or> p = i2 \<or> p = i3) \<and> (q = i1 \<or> q = i2 \<or> q = i3) \<and> p \<noteq> q"
  shows "edgeCount (faces (emitFace i1 i2 i3 d m st)) (p, q) = Suc (edgeCount (faces st) (p, q))"
proof -
  from emitFace_adds_edge [OF assms] obtain fc where
    "faces (emitFace i1 i2 i3 d m st) = faces st @ [fc]" "hasEdge (p, q) fc" by blast
  then show ?thesis by (simp add: edgeCount_def)
qed

lemma sameEdge_hasEdge: "sameEdge e e' \<Longrightarrow> hasEdge e fc = hasEdge e' fc"
  by (cases fc; cases e; cases e') (auto simp: hasEdge_cases sameEdge_def)

lemma sameEdge_edgeCount: "sameEdge e e' \<Longrightarrow> edgeCount fcs e = edgeCount fcs e'"
  by (simp add: edgeCount_def sameEdge_hasEdge [of e e'] cong: filter_cong)

lemma not_watertightI:
  assumes "fc \<in> set fcs" and "hasEdge e fc" and "edgeCount fcs e \<noteq> 2"
  shows "\<not> watertight fcs"
proof -
  from assms(2) obtain e' where e': "e' \<in> set (faceEdges fc)" "sameEdge e e'"
    by (auto simp: hasEdge_def list_ex_iff)
  with assms(3) have "edgeCount fcs e' \<noteq> 2"
    by (simp add: sameEdge_edgeCount)
  with assms(1) e'(1) show ?thesis
    by (auto simp: watertight_def list_all_iff)
qed

lemma sideWall_last:
  "sideWall ii out bm it sb st =
     emitFace (it ! ii ! (bins - 2)) (sb ! (bins - 1)) (it ! ii ! (bins - 1)) out bm
       (emitFace (it ! ii ! (bins - 2)) (sb ! (bins - 2)) (sb ! (bins - 1)) out bm
          (fold (\<lambda>j s.
             emitFace (it ! ii ! j) (sb ! (j + 1)) (it ! ii ! (j + 1)) out bm
               (emitFace (it ! ii ! j) (sb ! j) (sb ! (j + 1)) out bm s))
           [0..<bins - 2] st))"
proof -
  have b: "bins - 1 = Suc (bins - 2)" and c: "Suc (bins - 2) = bins - 1"
    by (simp_all add: bins_eq)
  show ?thesis
    unfolding sideWall_def Let_def b upt_Suc_append [OF le0] fold_append
    by (simp add: c)
qed

lemma leftWall_edge_four:
  assumes "it ! 0 ! (bins - 2) \<noteq> sb ! (bins - 1)"
  shows "4 \<le> edgeCount (faces (leftSeam bm it sb (sideWall 0 OUT_LEFT bm it sb st)))
               (it ! 0 ! (bins - 2), sb ! (bins - 1))"
  unfolding leftSeam_def sideWall_last
  using assms by (simp add: edgeCount_emitFace)

lemma leftSeam_last_face:
  assumes "it ! 0 ! (bins - 2) \<noteq> sb ! (bins - 1)"
  shows "\<exists>fc. fc \<in> set (faces (leftSeam bm it sb st)) \<and>
             hasEdge (it ! 0 ! (bins - 2), sb ! (bins - 1)) fc"
proof -
  let ?s = "emitFace (it ! 0 ! (bins - 2)) (it ! 0 ! (bins - 1)) (sb ! (bins - 1)) OUT_LEFT bm st"
  have "\<exists>fc. faces (emitFace (it ! 0 ! (bins - 2)) (sb ! (bins - 1)) (sb ! (bins - 2)) OUT_LEFT bm ?s)
               = faces ?s @ [fc] \<and> hasEdge (it ! 0 ! (bins - 2), sb ! (bins - 1)) fc"
    using assms by (intro emitFace_adds_edge) simp
  then obtain fc where
    a: "faces (emitFace (it ! 0 ! (bins - 2)) (sb ! (bins - 1)) (sb ! (bins - 2)) OUT_LEFT bm ?s)
          = faces ?s @ [fc]"
    and e: "hasEdge (it ! 0 ! (bins - 2), sb ! (bins - 1)) fc"
    by blast
  from a have "fc \<in> set (faces (leftSeam bm it sb st))"
    unfolding leftSeam_def by simp
  with e show ?thesis by blast
qed

lemma sideRow_nth: "i < n \<Longrightarrow> j < bins \<Longrightarrow> sideRow n i ! j = n * bins + i * bins + j + 1"
  by (simp add: sideRow_def indexGrid_nth)

subsection \<open>Facts about the export click and the live surface\<close>

lemma vxyz_build:
  assumes "h \<noteq> []"
  shows "\<exists>m. buildOBJFromCaptured h = Inr m \<and>
             vxyz m = topPositions h (length h) @ bottomPositions (length h) (length h)"
proof -
  let ?n = "length h"
  let ?it = "indexGrid 0 ?n"
  let ?sl = "sideRow ?n 0"
  let ?sr = "sideRow ?n (?n - 1)"
  let ?m = "ensureBaseMaterial baseMatName
              (rightSeam ?n baseMatName ?it ?sr (sideWall (?n - 1) OUT_RIGHT baseMatName ?it ?sr
                (leftSeam baseMatName ?it ?sl (sideWall 0 OUT_LEFT baseMatName ?it ?sl (beforeSideWalls h)))))"
  have "extends (beforeSideWalls h) ?m"
    by (intro extends_trans [OF _ extends_ensureBaseMaterial] extends_trans [OF _ extends_rightSeam]
          extends_trans [OF _ extends_sideWall] extends_trans [OF _ extends_leftSeam])
       (rule extends_refl)
  then have "vxyz ?m = topPositions h ?n @ bottomPositions ?n ?n"
    by (simp add: extends_def vxyz_beforeSideWalls)
  with build_nonempty [OF assms] show ?thesis by simp
qed

lemma topY_boundary: "topY slc activeRows = 0"
  by (simp add: topY_def topVertex_def activeRows_eq activeRowsCount_eq Let_def flatEps_def
      depth_def heightScale_def)

lemma exportZ_boundary: "exportZ activeRows = zMax"
  by (simp add: exportZ_def activeRows_eq activeRowsCount_eq z0_def zMax_def)

lemma length_synthesize:
  "length (capturedSlices (synthesizeCapturedFromSurface st)) =
     max 2 (length (geometryPosition st) div 3 div pointsPerSlice)"
  by (simp add: synthesizeCapturedFromSurface_def Let_def)

lemma exportClick_history:
  "capturedSlices (fst (exportClick st)) =
     (if length (capturedSlices st) < 2 then capturedSlices (synthesizeCapturedFromSurface st)
      else capturedSlices st)"
  by (simp add: exportClick_def Let_def)

lemma exportClick_result:
  "snd (exportClick st) = buildOBJFromCaptured (capturedSlices (fst (exportClick st)))"
  by (simp add: exportClick_def Let_def)

lemma length_shiftVertex [simp]:
  "length (posArray (shiftVertex rs x st)) = length (posArray st)"
  "length (colors (shiftVertex rs x st)) = length (colors st)"
  by (simp_all add: shiftVertex_def Let_def)

lemma vY_shiftVertex:
  assumes "(rs + x) * 3 + 1 < length (posArray st)"
  shows "vY (shiftVertex rs x st) v = (if v = rs + x then vY st (rs + x + 1) else vY st v)"
  using assms by (simp add: vY_def shiftVertex_def Let_def nth_list_update)

lemma vC_shiftVertex:
  assumes "(rs + x) * 3 + 2 < length (colors st)" and "c < 3"
  shows "vC (shiftVertex rs x st) v c = (if v = rs + x then vC st (rs + x + 1) c else vC st v c)"
proof -
  from assms(2) consider "c = 0" | "c = 1" | "c = 2" by linarith
  then show ?thesis
  proof cases
    case 1
    with assms(1) show ?thesis
      by (simp add: vC_def shiftVertex_def Let_def nth_list_update)
  next
    case 2
    with assms(1) show ?thesis
      by (simp add: vC_def shiftVertex_def Let_def nth_list_update)
  next
    case 3
    with assms(1) show ?thesis
      by (simp add: vC_def shiftVertex_def Let_def nth_list_update)
  qed
qed

lemma length_fold_shiftVertex [simp]:
  "length (posArray (fold (shiftVertex rs) [0..<k] st)) = length (posArray st)"
  "length (colors (fold (shiftVertex rs) [0..<k] st)) = length (colors st)"
  by (induction k) simp_all

lemma vY_fold_shiftVertex:
  assumes "(rs + k) * 3 + 1 < length (posArray st)"
  shows "vY (fold (shiftVertex rs) [0..<k] st) v =
           (if rs \<le> v \<and> v < rs + k then vY st (v + 1) else vY st v)"
  using assms
proof (induction k arbitrary: v)
  case 0
  show ?case by simp
next
  case (Suc k)
  from Suc.prems have r: "(rs + k) * 3 + 1 < length (posArray st)" by simp
  have ih: "vY (fold (shiftVertex rs) [0..<k] st) w =
              (if rs \<le> w \<and> w < rs + k then vY st (w + 1) else vY st w)" for w
    by (rule Suc.IH [OF r])
  show ?case
    using r by (simp add: vY_shiftVertex ih)
qed

lemma vC_fold_shiftVertex:
  assumes "(rs + k) * 3 + 2 < length (colors st)" and "c < 3"
  shows "vC (fold (shiftVertex rs) [0..<k] st) v c =
           (if rs \<le> v \<and> v < rs + k then vC st (v + 1) c else vC st v c)"
  using assms(1)
proof (induction k arbitrary: v)
  case 0
  show ?case by simp
next
  case (Suc k)
  from Suc.prems have r: "(rs + k) * 3 + 2 < length (colors st)" by simp
  have ih: "vC (fold (shiftVertex rs) [0..<k] st) w c =
              (if rs \<le> w \<and> w < rs + k then vC st (w + 1) c else vC st w c)" for w
    by (rule Suc.IH [OF r])
  show ?case
    using r assms(2) by (simp add: vC_shiftVertex ih)
qed

lemma row_in_range:
  assumes "z < pointsPerSlice"
  shows "(z * numSlices + (numSlices - Suc 0)) * 3 + 2 < pointsPerSlice * numSlices * 3"
  using assms by (simp add: pointsPerSlice_def numSlices_def)

lemma length_updateRow [simp]:
  "length (posArray (updateRow s z st)) = length (posArray st)"
  "length (colors (updateRow s z st)) = length (colors st)"
  by (simp_all add: updateRow_def Let_def)

lemma surfaceSized_updateRow [simp]: "surfaceSized (updateRow s z st) = surfaceSized st"
  by (simp add: surfaceSized_def)

lemma vY_updateRow:
  assumes "surfaceSized st" and "z < pointsPerSlice"
  shows "vY (updateRow s z st) v =
           (if z * numSlices \<le> v \<and> v < z * numSlices + (numSlices - Suc 0) then vY st (v + 1)
            else if v = z * numSlices + (numSlices - Suc 0) then s ! z * depth * heightScale
            else vY st v)"
proof -
  let ?P = "fold (shiftVertex (z * numSlices)) [0..<numSlices - Suc 0] st"
  from row_in_range [OF assms(2)] assms(1)
  have r: "(z * numSlices + (numSlices - Suc 0)) * 3 + 1 < length (posArray st)"
    by (simp add: surfaceSized_def)
  have last: "z * numSlices + numSlices - Suc 0 = z * numSlices + (numSlices - Suc 0)"
    by (simp add: numSlices_def)
  have "vY (updateRow s z st) v =
          (if v = z * numSlices + (numSlices - Suc 0) then s ! z * depth * heightScale else vY ?P v)"
    using r by (simp add: vY_def updateRow_def Let_def last nth_list_update)
  then show ?thesis
    by (simp add: vY_fold_shiftVertex [OF r])
qed

lemma vC_updateRow:
  assumes "surfaceSized st" and "z < pointsPerSlice" and "c < 3"
  shows "vC (updateRow s z st) v c =
           (if z * numSlices \<le> v \<and> v < z * numSlices + (numSlices - Suc 0) then vC st (v + 1) c
            else if v = z * numSlices + (numSlices - Suc 0)
                 then [r (referenceColorRamp (s ! z)), g (referenceColorRamp (s ! z)),
                       b (referenceColorRamp (s ! z))] ! c
            else vC st v c)"
proof -
  let ?P = "fold (shiftVertex (z * numSlices)) [0..<numSlices - Suc 0] st"
  from row_in_range [OF assms(2)] assms(1)
  have r: "(z * numSlices + (numSlices - Suc 0)) * 3 + 2 < length (colors st)"
    by (simp add: surfaceSized_def)
  have last: "z * numSlices + numSlices - Suc 0 = z * numSlices + (numSlices - Suc 0)"
    by (simp add: numSlices_def)
  from assms(3) consider "c = 0" | "c = 1" | "c = 2" by linarith
  then have "vC (updateRow s z st) v c =
          (if v = z * numSlices + (numSlices - Suc 0)
           then [r (referenceColorRamp (s ! z)), g (referenceColorRamp (s ! z)),
                 b (referenceColorRamp (s ! z))] ! c
           else vC ?P v c)"
  proof cases
    case 1
    with r show ?thesis
      by (simp add: vC_def updateRow_def Let_def last nth_list_update)
  next
    case 2
    with r show ?thesis
      by (simp add: vC_def updateRow_def Let_def last nth_list_update)
  next
    case 3
    with r show ?thesis
      by (simp add: vC_def updateRow_def Let_def last nth_list_update)
  qed
  then show ?thesis
    by (simp add: vC_fold_shiftVertex [OF r assms(3)])
qed

lemma surfaceSized_fold_updateRow [simp]:
  "surfaceSized (fold (updateRow s) [0..<k] st) = surfaceSized st"
  by (induction k) simp_all

lemma row_col_unique:
  fixes n :: nat
  assumes "x < n" and "y < n" and "z * n + x = k * n + y"
  shows "z = k \<and> x = y"
proof -
  from assms(1) have "(z * n + x) div n = z" by simp
  moreover from assms(2) have "(k * n + y) div n = k" by simp
  ultimately have "z = k" using assms(3) by simp
  with assms(3) show ?thesis by simp
qed

lemma same_row:
  assumes "x < numSlices"
  shows "(k * numSlices \<le> z * numSlices + x \<and> z * numSlices + x < k * numSlices + (numSlices - Suc 0))
           = (z = k \<and> x < numSlices - Suc 0)"
    and "(z * numSlices + x = k * numSlices + (numSlices - Suc 0)) = (z = k \<and> x = numSlices - Suc 0)"
proof -
  have pos: "numSlices - Suc 0 < numSlices"
    by (simp add: numSlices_def)
  show "(z * numSlices + x = k * numSlices + (numSlices - Suc 0)) = (z = k \<and> x = numSlices - Suc 0)"
    using row_col_unique [OF assms pos, of z k] by auto
  show "(k * numSlices \<le> z * numSlices + x \<and> z * numSlices + x < k * numSlices + (numSlices - Suc 0))
           = (z = k \<and> x < numSlices - Suc 0)"
  proof
    assume a: "k * numSlices \<le> z * numSlices + x \<and> z * numSlices + x < k * numSlices + (numSlices - Suc 0)"
    define y where "y = z * numSlices + x - k * numSlices"
    from a have y: "y < numSlices - Suc 0" and eq: "z * numSlices + x = k * numSlices + y"
      unfolding y_def by linarith+
    from y pos have "y < numSlices" by simp
    from row_col_unique [OF assms this eq] y show "z = k \<and> x < numSlices - Suc 0"
      by simp
  next
    assume "z = k \<and> x < numSlices - Suc 0"
    then show "k * numSlices \<le> z * numSlices + x \<and> z * numSlices + x < k * numSlices + (numSlices - Suc 0)"
      by simp
  qed
qed

lemma vY_fold_updateRow:
  assumes "surfaceSized st"
  shows "k \<le> pointsPerSlice \<Longrightarrow> x < numSlices \<Longrightarrow>
         vY (fold (updateRow s) [0..<k] st) (z * numSlices + x) =
           (if z < k
            then (if x < numSlices - Suc 0 then vY st (z * numSlices + (x + 1))
                  else s ! z * depth * heightScale)
            else vY st (z * numSlices + x))"
proof (induction k arbitrary: x z)
  case 0
  show ?case by simp
next
  case (Suc k)
  then have k: "k < pointsPerSlice" and k': "k \<le> pointsPerSlice"
    by simp_all
  let ?P = "fold (updateRow s) [0..<k] st"
  have sz: "surfaceSized ?P"
    using assms by simp
  have step: "vY (updateRow s k ?P) (z' * numSlices + x') =
      (if z' = k \<and> x' < numSlices - Suc 0 then vY ?P (z' * numSlices + (x' + 1))
       else if z' = k \<and> x' = numSlices - Suc 0 then s ! k * depth * heightScale
       else vY ?P (z' * numSlices + x'))" if "x' < numSlices" for z' x'
    by (simp add: vY_updateRow [OF sz k] same_row [OF that] add.assoc)
  note st = step [OF Suc.prems(2)]
  show ?case
  proof (cases "z = k")
    case True
    show ?thesis
    proof (cases "x < numSlices - Suc 0")
      case True
      then have "x + 1 < numSlices" by simp
      from Suc.IH [OF k' this, of k] True \<open>z = k\<close> show ?thesis
        by (simp add: st)
    next
      case False
      with Suc.prems(2) have "x = numSlices - Suc 0" by simp
      with \<open>z = k\<close> st show ?thesis
        by simp
    qed
  next
    case False
    with Suc.IH [OF k' Suc.prems(2), of z] show ?thesis
      by (simp add: st less_Suc_eq)
  qed
qed

lemma vC_fold_updateRow:
  assumes "surfaceSized st" and "c < 3"
  shows "k \<le> pointsPerSlice \<Longrightarrow> x < numSlices \<Longrightarrow>
         vC (fold (updateRow s) [0..<k] st) (z * numSlices + x) c =
           (if z < k
            then (if x < numSlices - Suc 0 then vC st (z * numSlices + (x + 1)) c
                  else [r (referenceColorRamp (s ! z)), g (referenceColorRamp (s ! z)),
                        b (referenceColorRamp (s ! z))] ! c)
            else vC st (z * numSlices + x) c)"
proof (induction k arbitrary: x z)
  case 0
  show ?case by simp
next
  case (Suc k)
  then have k: "k < pointsPerSlice" and k': "k \<le> pointsPerSlice"
    by simp_all
  let ?P = "fold (updateRow s) [0..<k] st"
  have sz: "surfaceSized ?P"
    using assms by simp
  have step: "vC (updateRow s k ?P) (z' * numSlices + x') c =
      (if z' = k \<and> x' < numSlices - Suc 0 then vC ?P (z' * numSlices + (x' + 1)) c
       else if z' = k \<and> x' = numSlices - Suc 0
            then [r (referenceColorRamp (s ! k)), g (referenceColorRamp (s ! k)),
                  b (referenceColorRamp (s ! k))] ! c
       else vC ?P (z' * numSlices + x') c)" if "x' < numSlices" for z' x'
    by (simp add: vC_updateRow [OF sz k assms(2)] same_row [OF that] add.assoc)
  note st = step [OF Suc.prems(2)]
  show ?case
  proof (cases "z = k")
    case True
    show ?thesis
    proof (cases "x < numSlices - Suc 0")
      case True
      then have "x + 1 < numSlices" by simp
      from Suc.IH [OF k' this, of k] True \<open>z = k\<close> show ?thesis
        by (simp add: st)
    next
      case False
      with Suc.prems(2) have "x = numSlices - Suc 0" by simp
      with \<open>z = k\<close> st show ?thesis
        by simp
    qed
  next
    case False
    with Suc.IH [OF k' Suc.prems(2), of z] show ?thesis
      by (simp add: st less_Suc_eq)
  qed
qed

lemma heightAt_vY: "heightAt st z x = vY st (z * numSlices + x)"
  by (simp add: heightAt_def vY_def)

lemma colorAt_vC:
  "colorAt st z x = \<lparr>r = vC st (z * numSlices + x) 0, g = vC st (z * numSlices + x) 1,
                      b = vC st (z * numSlices + x) 2\<rparr>"
  by (simp add: colorAt_def vC_def)

lemma surfaceSized_advance [simp]: "surfaceSized (advance s st) = surfaceSized st"
  by (simp add: advance_def)

lemma heightAt_advance:
  assumes "surfaceSized st" and "z < pointsPerSlice" and "x < numSlices"
  shows "heightAt (advance s st) z x =
           (if x + 1 < numSlices then heightAt st z (x + 1) else s ! z * depth * heightScale)"
proof -
  have c: "(x < numSlices - Suc 0) = (x + 1 < numSlices)"
    by (auto simp: numSlices_def)
  from vY_fold_updateRow [OF assms(1) le_refl assms(3), of s z] assms(2) show ?thesis
    by (simp add: heightAt_vY advance_def c)
qed

lemma colorAt_advance:
  assumes "surfaceSized st" and "z < pointsPerSlice" and "x < numSlices"
  shows "colorAt (advance s st) z x =
           (if x + 1 < numSlices then colorAt st z (x + 1) else referenceColorRamp (s ! z))"
proof -
  have c: "(x < numSlices - Suc 0) = (x + 1 < numSlices)"
    by (auto simp: numSlices_def)
  have three: "(0::nat) < 3" "(1::nat) < 3" "(2::nat) < 3" by simp_all
  from vC_fold_updateRow [OF assms(1) three(1) le_refl assms(3), of s z]
       vC_fold_updateRow [OF assms(1) three(2) le_refl assms(3), of s z]
       vC_fold_updateRow [OF assms(1) three(3) le_refl assms(3), of s z]
       assms(2)
  show ?thesis
    by (simp add: colorAt_vC advance_def c)
qed

lemma surfaceSized_fold_advance [simp]: "surfaceSized (fold advance ss st) = surfaceSized st"
  by (induction ss arbitrary: st) simp_all

lemma heightAt_fold_advance:
  assumes "surfaceSized st" and "z < pointsPerSlice"
  shows "x < numSlices \<Longrightarrow>
         heightAt (fold advance ss st) z x =
           (if x + length ss < numSlices then heightAt st z (x + length ss)
            else ss ! (x + length ss - numSlices) ! z * depth * heightScale)"
proof (induction ss arbitrary: x rule: rev_induct)
  case Nil
  then show ?case by simp
next
  case (snoc s ss)
  have sz: "surfaceSized (fold advance ss st)"
    using assms(1) by simp
  show ?case
  proof (cases "x + 1 < numSlices")
    case True
    then have idx: "\<not> x + 1 + length ss < numSlices \<longrightarrow> x + 1 + length ss - numSlices < length ss"
      by linarith
    from snoc.IH [OF True] True idx show ?thesis
      by (simp add: heightAt_advance [OF sz assms(2) snoc.prems] nth_append)
  next
    case False
    with snoc.prems have "x + length ss + 1 - numSlices = length ss"
      by simp
    with False show ?thesis
      by (simp add: heightAt_advance [OF sz assms(2) snoc.prems] nth_append)
  qed
qed

lemma colorAt_fold_advance:
  assumes "surfaceSized st" and "z < pointsPerSlice"
  shows "x < numSlices \<Longrightarrow>
         colorAt (fold advance ss st) z x =
           (if x + length ss < numSlices then colorAt st z (x + length ss)
            else referenceColorRamp (ss ! (x + length ss - numSlices) ! z))"
proof (induction ss arbitrary: x rule: rev_induct)
  case Nil
  then show ?case by simp
next
  case (snoc s ss)
  have sz: "surfaceSized (fold advance ss st)"
    using assms(1) by simp
  show ?case
  proof (cases "x + 1 < numSlices")
    case True
    then have idx: "\<not> x + 1 + length ss < numSlices \<longrightarrow> x + 1 + length ss - numSlices < length ss"
      by linarith
    from snoc.IH [OF True] True idx show ?thesis
      by (simp add: colorAt_advance [OF sz assms(2) snoc.prems] nth_append)
  next
    case False
    with snoc.prems have "x + length ss + 1 - numSlices = length ss"
      by simp
    with False show ?thesis
      by (simp add: colorAt_advance [OF sz assms(2) snoc.prems] nth_append)
  qed
qed

subsection \<open>Facts about single-precision narrowing and the row table\<close>

lemma roundTiesToEven_error: "\<bar>of_int (roundTiesToEven y) - y\<bar> \<le> 1 / 2"
proof -
  have "of_int \<lfloor>y\<rfloor> \<le> y" and "y < of_int \<lfloor>y\<rfloor> + 1"
    by linarith+
  then show ?thesis
    unfolding roundTiesToEven_def Let_def by (auto simp: abs_le_iff)
qed

lemma roundTiesToEven_of_int [simp]: "roundTiesToEven (of_int n) = n"
  by (simp add: roundTiesToEven_def)

lemma fround_ulp:
  assumes "x \<noteq> 0"
  shows "(2::real) powr (of_int \<lfloor>log 2 \<bar>x\<bar>\<rfloor> - 23) \<le> \<bar>x\<bar> / 2 ^ 23"
proof -
  have "(2::real) powr (of_int \<lfloor>log 2 \<bar>x\<bar>\<rfloor>) \<le> 2 powr (log 2 \<bar>x\<bar>)"
    by (intro powr_mono) simp_all
  also have "\<dots> = \<bar>x\<bar>"
    using assms by simp
  finally have "(2::real) powr (of_int \<lfloor>log 2 \<bar>x\<bar>\<rfloor>) / 2 ^ 23 \<le> \<bar>x\<bar> / 2 ^ 23"
    by (simp add: divide_right_mono)
  moreover have "(2::real) powr (of_int \<lfloor>log 2 \<bar>x\<bar>\<rfloor> - 23)
                   = 2 powr (of_int \<lfloor>log 2 \<bar>x\<bar>\<rfloor>) / 2 ^ 23"
    by (simp add: powr_diff)
  ultimately show ?thesis by simp
qed

lemma fround_error: "\<bar>Math_fround x - x\<bar> \<le> \<bar>x\<bar> / 2 ^ 24"
proof (cases "x = 0")
  case True
  then show ?thesis by (simp add: Math_fround_def)
next
  case False
  define u :: real where "u = 2 powr (of_int \<lfloor>log 2 \<bar>x\<bar>\<rfloor> - 23)"
  have u: "0 < u" by (simp add: u_def)
  have "Math_fround x - x = (of_int (roundTiesToEven (x / u)) - x / u) * u"
    using False u by (simp add: Math_fround_def Let_def u_def [symmetric] algebra_simps)
  then have "\<bar>Math_fround x - x\<bar> = \<bar>of_int (roundTiesToEven (x / u)) - x / u\<bar> * u"
    using u by (simp add: abs_mult)
  also have "\<dots> \<le> 1 / 2 * u"
    using u roundTiesToEven_error [of "x / u"] by (intro mult_right_mono) simp_all
  also have "\<dots> \<le> 1 / 2 * (\<bar>x\<bar> / 2 ^ 23)"
    using fround_ulp [OF False] by (simp add: u_def)
  finally show ?thesis by simp
qed

lemma floor_log2_binade:
  fixes x :: real
  assumes "2 ^ k \<le> \<bar>x\<bar>" and "\<bar>x\<bar> < 2 ^ (k + 1)"
  shows "\<lfloor>log 2 \<bar>x\<bar>\<rfloor> = int k"
proof -
  have p: "(0::real) < 2 ^ k" by (rule zero_less_power) simp
  with assms(1) have pos: "0 < \<bar>x\<bar>" by linarith
  have lo: "(2::real) powr real_of_int (int k) \<le> \<bar>x\<bar>"
    using assms(1) by (simp only: of_int_of_nat_eq powr_realpow [OF zero_less_numeral])
  have "real_of_int (int k + 1) = real (k + 1)" by simp
  then have hi: "\<bar>x\<bar> < (2::real) powr real_of_int (int k + 1)"
    using assms(2) by (simp only: powr_realpow [OF zero_less_numeral])
  have one: "(1::real) < 2" by simp
  from floor_log_eq_powr_iff [OF pos one, of "int k"] lo hi show ?thesis
    by blast
qed

lemma two_powr_minus:
  assumes "k \<le> 23"
  shows "(2::real) powr (real_of_int (int k) - 23) = 1 / 2 ^ (23 - k)"
proof -
  have "real_of_int (int k) - 23 = - real (23 - k)"
    using assms by simp
  then have "(2::real) powr (real_of_int (int k) - 23) = 2 powr (- real (23 - k))"
    by (rule arg_cong)
  also have "\<dots> = inverse (2 powr real (23 - k))"
    by (rule powr_minus)
  also have "\<dots> = inverse (2 ^ (23 - k))"
    by (simp only: powr_realpow [OF zero_less_numeral])
  finally show ?thesis
    by (simp only: inverse_eq_divide)
qed

lemma fround_binade:
  fixes x :: real
  assumes "2 ^ k \<le> \<bar>x\<bar>" and "\<bar>x\<bar> < 2 ^ (k + 1)" and "k \<le> 23"
  shows "Math_fround x = of_int (roundTiesToEven (x * 2 ^ (23 - k))) / 2 ^ (23 - k)"
proof -
  have nz: "x \<noteq> 0"
  proof
    assume "x = 0"
    with assms(1) have "(2::real) ^ k \<le> 0" by simp
    moreover have "(0::real) < 2 ^ k" by (rule zero_less_power) simp
    ultimately show False by linarith
  qed
  have "Math_fround x =
          of_int (roundTiesToEven (x / (1 / 2 ^ (23 - k)))) * (1 / 2 ^ (23 - k))"
    using nz
    by (simp only: Math_fround_def Let_def floor_log2_binade [OF assms(1,2)]
          two_powr_minus [OF assms(3)] if_False)
  then show ?thesis by simp
qed

lemma fround_40: "Math_fround 40 = 40"
proof -
  have a: "(2::real) ^ 5 \<le> \<bar>40\<bar>" "\<bar>40::real\<bar> < 2 ^ (5 + 1)" "(5::nat) \<le> 23"
    by simp_all
  have i: "(40::real) * 2 ^ (23 - 5) = of_int 10485760"
    by simp
  show ?thesis
    unfolding fround_binade [OF a] i roundTiesToEven_of_int by simp
qed

lemma fround_m40: "Math_fround (- 40) = - 40"
proof -
  have a: "(2::real) ^ 5 \<le> \<bar>- 40\<bar>" "\<bar>- 40::real\<bar> < 2 ^ (5 + 1)" "(5::nat) \<le> 23"
    by simp_all
  have i: "(- 40::real) * 2 ^ (23 - 5) = of_int (- 10485760)"
    by simp
  show ?thesis
    unfolding fround_binade [OF a] i roundTiesToEven_of_int by simp
qed

lemma powr_gap:
  fixes a b p :: real
  assumes "0 < a" and "a \<le> b" and "b \<le> 1" and "0 < p" and "p \<le> 1"
  shows "p * (b - a) \<le> b powr p - a powr p"
proof -
  have "(\<lambda>t. t powr p - p * t) a \<le> (\<lambda>t. t powr p - p * t) b"
  proof (rule DERIV_nonneg_imp_nondecreasing [OF assms(2)])
    fix x :: real
    assume "a \<le> x" and "x \<le> b"
    with assms have x: "0 < x" "x \<le> 1" by linarith+
    have d: "DERIV (\<lambda>t. t powr p - p * t) x :> p * x powr (p - 1) - p"
      using x(1) by (auto intro!: derivative_eq_intros)
    have "x powr 0 \<le> x powr (p - 1)"
      using x assms(5) by (intro powr_mono') simp_all
    then have "1 \<le> x powr (p - 1)"
      using x(1) by simp
    then have "0 \<le> p * x powr (p - 1) - p"
      using assms(4) by (simp add: algebra_simps)
    with d show "\<exists>y. DERIV (\<lambda>t. t powr p - p * t) x :> y \<and> 0 \<le> y"
      by blast
  qed
  then show ?thesis
    by (simp add: algebra_simps)
qed

lemma powr_gap0:
  fixes a b p :: real
  assumes "0 \<le> a" and "a \<le> b" and "b \<le> 1" and "0 < p" and "p \<le> 1"
  shows "p * (b - a) \<le> b powr p - a powr p"
proof (cases "a = 0")
  case False
  with assms(1) have "0 < a" by simp
  then show ?thesis using assms(2-5) by (rule powr_gap)
next
  case True
  show ?thesis
  proof (cases "b = 0")
    case True
    with \<open>a = 0\<close> show ?thesis by simp
  next
    case False
    with assms True have b: "0 < b" by simp
    have "b powr 1 \<le> b powr p"
      using b assms(3,5) by (intro powr_mono') simp_all
    then have "b \<le> b powr p" using b by simp
    moreover have "p * b \<le> b"
      using b assms(5) by (simp add: mult_le_cancel_right1)
    ultimately show ?thesis using True by simp
  qed
qed

lemma rowExact_bounds:
  assumes "z < activeRows"
  shows "\<bar>zMin + Math_pow (real z / real (activeRows - 1)) frequencyExponent * (zMax - zMin)\<bar> \<le> 40"
proof -
  let ?t = "real z / real (activeRows - 1)"
  from assms have t: "0 \<le> ?t" "?t \<le> 1"
    by (simp_all add: activeRows_eq)
  have "0 \<le> ?t powr frequencyExponent"
    by simp
  moreover have "?t powr frequencyExponent \<le> 1"
    using t by (intro powr_le1) (simp_all add: frequencyExponent_def)
  ultimately show ?thesis
    by (simp add: Math_pow_def zMin_def zMax_def depth_def abs_le_iff)
qed

lemma rowExact_gap:
  assumes "z1 < z2" and "z2 < activeRows"
  shows "(zMin + Math_pow (real z1 / real (activeRows - 1)) frequencyExponent * (zMax - zMin)) + 1 / 2
           \<le> zMin + Math_pow (real z2 / real (activeRows - 1)) frequencyExponent * (zMax - zMin)"
proof -
  let ?a = "real z1 / real (activeRows - 1)" and ?b = "real z2 / real (activeRows - 1)"
  from assms have a: "0 \<le> ?a" and ab: "?a \<le> ?b" and b: "?b \<le> 1"
    by (simp_all add: activeRows_eq divide_right_mono)
  have p: "0 < frequencyExponent" "frequencyExponent \<le> 1"
    by (simp_all add: frequencyExponent_def)
  from assms(1) have "real z1 + 1 \<le> real z2" by linarith
  then have "1 / 95 \<le> ?b - ?a"
    by (simp add: activeRows_eq field_simps)
  then have "frequencyExponent * (1 / 95) \<le> frequencyExponent * (?b - ?a)"
    using p(1) by (intro mult_left_mono) simp_all
  also have "\<dots> \<le> ?b powr frequencyExponent - ?a powr frequencyExponent"
    using a ab b p by (rule powr_gap0)
  finally have "13 / 1900 \<le> ?b powr frequencyExponent - ?a powr frequencyExponent"
    by (simp add: frequencyExponent_def)
  then show ?thesis
    by (simp add: Math_pow_def zMin_def zMax_def depth_def)
qed

lemma fround_error_40:
  assumes "\<bar>x\<bar> \<le> 40"
  shows "\<bar>Math_fround x - x\<bar> \<le> 40 / 2 ^ 24"
proof -
  have "\<bar>Math_fround x - x\<bar> \<le> \<bar>x\<bar> / 2 ^ 24" by (rule fround_error)
  also have "\<dots> \<le> 40 / 2 ^ 24"
    using assms by (intro divide_right_mono) simp_all
  finally show ?thesis .
qed

lemma exportZ_5: "exportZ 5 = - 40 + 80 * ((1 / 19) powr (13 / 20))"
  by (simp add: exportZ_def activeRowsCount_eq Let_def Math_pow_def frequencyExponent_def
      z0_def depth_def)

lemma row5_power: "((1 / 19 :: real) powr (13 / 20)) ^ 20 = (1 / 19) ^ 13"
proof -
  have "((1 / 19 :: real) powr (13 / 20)) powr 20 = (1 / 19) powr (13 / 20 * 20)"
    by (rule powr_powr)
  also have "\<dots> = (1 / 19 :: real) powr 13" by simp
  also have "\<dots> = (1 / 19) ^ 13" by (rule powr_numeral) simp
  finally show ?thesis
    by (simp only: powr_numeral [OF powr_ge_zero])
qed

lemma row5_bounds:
  "773357 / 5242880 < (1 / 19 :: real) powr (13 / 20)"
  "(1 / 19 :: real) powr (13 / 20) < 6186857 / 41943040"
proof -
  let ?c = "(1 / 19 :: real) powr (13 / 20)"
  have c: "0 \<le> ?c" by (rule powr_ge_zero)
  have "(773357 / 5242880 :: real) ^ 20 < (1 / 19) ^ 13"
    by (simp add: power_divide divide_simps)
  then have "(773357 / 5242880 :: real) ^ 20 < ?c ^ 20"
    by (simp only: row5_power)
  then show "773357 / 5242880 < ?c"
    using c by (rule power_less_imp_less_base)
  have "(1 / 19 :: real) ^ 13 < (6186857 / 41943040) ^ 20"
    by (simp add: power_divide divide_simps)
  then have "?c ^ 20 < (6186857 / 41943040 :: real) ^ 20"
    by (simp only: row5_power)
  then show "?c < 6186857 / 41943040"
    by (rule power_less_imp_less_base) simp
qed

lemma exportZ_5_between:
  "- 14784664 < exportZ 5 * 2 ^ 19" "exportZ 5 * 2 ^ 19 < - 14784663"
  "2 ^ 4 \<le> \<bar>exportZ 5\<bar>" "\<bar>exportZ 5\<bar> < 2 ^ (4 + 1)"
  using row5_bounds unfolding exportZ_5 by simp_all

lemma exportZ_5_not_float32: "Math_fround (exportZ 5) \<noteq> exportZ 5"
proof
  assume eq: "Math_fround (exportZ 5) = exportZ 5"
  have k: "(4::nat) \<le> 23" by simp
  define n where "n = roundTiesToEven (exportZ 5 * 2 ^ (23 - 4))"
  from fround_binade [OF exportZ_5_between(3,4) k] eq
  have "exportZ 5 = of_int n / 2 ^ (23 - 4)"
    by (simp add: n_def)
  then have "exportZ 5 * 2 ^ 19 = of_int n"
    by simp
  with exportZ_5_between(1,2) have "- 14784664 < real_of_int n" "real_of_int n < - 14784663"
    by simp_all
  then have "- 14784664 < n" "n < - 14784663"
    by linarith+
  then show False by linarith
qed

lemma exportZ_cases:
  "exportZ j =
     (if j < activeRows
      then zMin + Math_pow (real j / real (activeRows - 1)) frequencyExponent * (zMax - zMin)
      else zMax)"
  by (simp add: exportZ_def activeRowsCount_def activeRows_def Let_def z0_def zMin_def zMax_def)

lemma zRowPositions_fround:
  assumes "j < bins"
  shows "zRowPositions ! j = Math_fround (exportZ j)"
proof -
  from assms have "j < pointsPerSlice"
    by (simp add: bins_eq pointsPerSlice_def)
  then show ?thesis
    by (simp add: zRowPositions_nth exportZ_cases)
qed

lemma exportZ_abs: "\<bar>exportZ j\<bar> \<le> 40"
proof (cases "j < activeRows")
  case True
  then show ?thesis
    using rowExact_bounds [OF True] by (simp add: exportZ_cases)
next
  case False
  then show ?thesis
    by (simp add: exportZ_cases zMax_def depth_def)
qed

lemma exportZ_ends:
  "exportZ 0 = - 40" "exportZ (activeRows - 1) = 40" "exportZ activeRows = 40"
  by (simp_all add: exportZ_cases activeRows_eq Math_pow_def zMin_def zMax_def depth_def)

subsection \<open>Claims about the mapping, the ramp and the normaliser\<close>

text \<open>
  C7. Colour ramp boundary behaviour: the ramp at \<open>0\<close> is exactly the first stop's colour
  \<open>(0.55, 0, 0)\<close>, at \<open>1\<close> exactly the last stop's colour \<open>(0, 0.12, 0.70)\<close>, and an
  input outside \<open>[0, 1]\<close> is clamped before the segment search: the ramp of every
  \<open>v < 0\<close> is the ramp of \<open>0\<close> and the ramp of every \<open>v > 1\<close> is the ramp of \<open>1\<close>.
\<close>

theorem ramp_boundary:
  "referenceColorRamp 0 = \<lparr>r = 0.55, g = 0.00, b = 0.00\<rparr> \<and>
   referenceColorRamp 1 = \<lparr>r = 0.00, g = 0.12, b = 0.70\<rparr> \<and>
   (\<forall>v. v < 0 \<longrightarrow> referenceColorRamp v = referenceColorRamp 0) \<and>
   (\<forall>v. v > 1 \<longrightarrow> referenceColorRamp v = referenceColorRamp 1)"
proof -
  have lo: "referenceColorRamp v = referenceColorRamp 0" if "v < 0" for v
  proof -
    from that have "min 1 (max 0 v) = min 1 (max 0 (0::real))" by simp
    then show ?thesis unfolding referenceColorRamp_def by simp
  qed
  have hi: "referenceColorRamp v = referenceColorRamp 1" if "v > 1" for v
  proof -
    from that have "min 1 (max 0 v) = min 1 (max 0 (1::real))" by simp
    then show ?thesis unfolding referenceColorRamp_def by simp
  qed
  from lo hi referenceColorRamp_zero referenceColorRamp_one show ?thesis by simp
qed

theorem ramp_boundary_witness:
  "(-3::real) < 0 \<and> referenceColorRamp (-3) = \<lparr>r = 0.55, g = 0.00, b = 0.00\<rparr> \<and>
   (7::real) > 1 \<and> referenceColorRamp 7 = \<lparr>r = 0.00, g = 0.12, b = 0.70\<rparr>"
proof -
  have a: "(-3::real) < 0" and c: "(7::real) > 1" by simp_all
  from ramp_boundary a c show ?thesis by metis
qed

text \<open>
  C8. Row mapping monotonicity: for row indices \<open>z1 < z2 < activeRows\<close> the coordinate
  of \<open>z1\<close> is strictly below that of \<open>z2\<close>, and every row \<open>z \<ge> activeRows\<close> of the
  table has the constant coordinate \<open>depth / 2\<close>, the upper bound.
\<close>

theorem zRow_monotone:
  "(\<forall>z1 z2. z1 < z2 \<and> z2 < activeRows \<longrightarrow> zRowPositions ! z1 < zRowPositions ! z2) \<and>
   (\<forall>z. activeRows \<le> z \<and> z < pointsPerSlice \<longrightarrow> zRowPositions ! z = depth / 2)"
proof -
  have mono: "zRowPositions ! z1 < zRowPositions ! z2" if "z1 < z2" "z2 < activeRows" for z1 z2
  proof -
    let ?e1 = "zMin + Math_pow (real z1 / real (activeRows - 1)) frequencyExponent * (zMax - zMin)"
    let ?e2 = "zMin + Math_pow (real z2 / real (activeRows - 1)) frequencyExponent * (zMax - zMin)"
    from that have z1: "z1 < activeRows" by simp
    from that z1 have in1: "z1 < pointsPerSlice" and in2: "z2 < pointsPerSlice"
      by (simp_all add: activeRows_eq pointsPerSlice_def)
    have gap: "?e1 + 1 / 2 \<le> ?e2"
      using that by (rule rowExact_gap)
    have e1: "\<bar>Math_fround ?e1 - ?e1\<bar> \<le> 40 / 2 ^ 24"
      using rowExact_bounds [OF z1] by (rule fround_error_40)
    have e2: "\<bar>Math_fround ?e2 - ?e2\<bar> \<le> 40 / 2 ^ 24"
      using rowExact_bounds [OF that(2)] by (rule fround_error_40)
    have "(40::real) / 2 ^ 24 < 1 / 4" by simp
    with gap e1 e2 have "Math_fround ?e1 < Math_fround ?e2"
      by linarith
    then show ?thesis
      using that z1 in1 in2 by (simp add: zRowPositions_nth)
  qed
  have top: "zRowPositions ! z = depth / 2" if "activeRows \<le> z" "z < pointsPerSlice" for z
    using that fround_40 by (simp add: zRowPositions_nth zMax_def depth_def)
  from mono top show ?thesis by blast
qed

theorem zRow_monotone_witness:
  "(3::nat) < 40 \<and> 40 < activeRows \<and> zRowPositions ! 3 < zRowPositions ! 40 \<and>
   activeRows \<le> 100 \<and> 100 < pointsPerSlice \<and> zRowPositions ! 100 = depth / 2"
proof -
  have a: "(3::nat) < 40 \<and> 40 < activeRows"
    by (simp add: activeRows_eq)
  have c: "activeRows \<le> 100 \<and> 100 < pointsPerSlice"
    by (simp add: activeRows_eq pointsPerSlice_def)
  from zRow_monotone a c show ?thesis by blast
qed

text \<open>
  C6. Noise gating in slice normalisation: for every raw magnitude array and output row
  \<open>i\<close>, if \<open>i \<ge> activeRows\<close> and the sampled raw value divided by 255 is strictly below
  \<open>noiseFloor\<close>, the normalised output at row \<open>i\<close> is exactly \<open>0\<close>; and for every row
  \<open>i < activeRows\<close> the gate is not applied: the output is \<open>(raw / 255)\<close> to the power
  \<open>1.2\<close>, however small the raw value.
\<close>

theorem noise_gate:
  assumes "length freqData = freqBinCount" and "i < pointsPerSlice"
  shows "(let raw = real (unat (freqData ! min (freqBinCount - 1) (i * sliceStride))) in
          (activeRows \<le> i \<and> raw / 255 < noiseFloor \<longrightarrow> normalizeSlice freqData ! i = 0) \<and>
          (i < activeRows \<longrightarrow> normalizeSlice freqData ! i = (raw / 255) powr 1.2))"
  using assms by (simp add: normalizeSlice_def normalizeBin_def Let_def Math_pow_def)

theorem noise_gate_witness:
  "length (replicate 512 (7 :: 8 word)) = freqBinCount \<and> (100::nat) < pointsPerSlice \<and>
   activeRows \<le> 100 \<and>
   real (unat (replicate 512 (7 :: 8 word) ! min (freqBinCount - 1) (100 * sliceStride))) / 255 < noiseFloor \<and>
   normalizeSlice (replicate 512 7) ! 100 = 0"
proof -
  have len: "length (replicate 512 (7 :: 8 word)) = freqBinCount"
    by (simp add: freqBinCount_def)
  have i: "(100::nat) < pointsPerSlice"
    by (simp add: pointsPerSlice_def)
  have act: "activeRows \<le> 100"
    by (simp add: activeRows_eq)
  have low: "real (unat (replicate 512 (7 :: 8 word) ! min (freqBinCount - 1) (100 * sliceStride))) / 255 < noiseFloor"
    by (simp add: freqBinCount_def sliceStride_eq noiseFloor_def)
  from noise_gate [OF len i] act low show ?thesis
    using len i by (simp add: Let_def)
qed

text \<open>
  C2. For every face emitted through \<open>emitFace\<close>, with \<open>p1\<close>, \<open>p2\<close>, \<open>p3\<close> the positions
  of its vertices in the order stored and \<open>d\<close> the desired outward direction, the dot
  product of the geometric normal \<open>(p2 - p1) \<times> (p3 - p1)\<close> with \<open>d\<close> is non-negative:
  the given order is kept when that product is \<open>\<ge> 0\<close> for it, and the last two indices
  are swapped otherwise. Exactly one face is appended and the vertices are untouched.
\<close>

theorem emitFace_outward:
  assumes "1 \<le> i1 \<and> i1 \<le> length (vxyz st)"
      and "1 \<le> i2 \<and> i2 \<le> length (vxyz st)"
      and "1 \<le> i3 \<and> i3 \<le> length (vxyz st)"
  shows "\<exists>fc. faces (emitFace i1 i2 i3 d m st) = faces st @ [fc] \<and>
              vxyz (emitFace i1 i2 i3 d m st) = vxyz st \<and>
              fc = (if dot3 (faceNormal (vxyz st) (m, i1, i2, i3)) d \<ge> 0
                    then (m, i1, i2, i3) else (m, i1, i3, i2)) \<and>
              dot3 (faceNormal (vxyz st) fc) d \<ge> 0"
proof -
  obtain px py pz where p: "sub3 (vxyz st ! (i2 - Suc 0)) (vxyz st ! (i1 - Suc 0)) = (px, py, pz)"
    by (cases "sub3 (vxyz st ! (i2 - Suc 0)) (vxyz st ! (i1 - Suc 0))") auto
  obtain qx qy qz where q: "sub3 (vxyz st ! (i3 - Suc 0)) (vxyz st ! (i1 - Suc 0)) = (qx, qy, qz)"
    by (cases "sub3 (vxyz st ! (i3 - Suc 0)) (vxyz st ! (i1 - Suc 0))") auto
  obtain dx dy dz where d: "d = (dx, dy, dz)"
    by (cases d) auto
  have swap: "dot3 (cross3 (qx, qy, qz) (px, py, pz)) d = - dot3 (cross3 (px, py, pz) (qx, qy, qz)) d"
    by (simp add: d dot3_def cross3_def algebra_simps)
  show ?thesis
  proof (cases "dot3 (cross3 (px, py, pz) (qx, qy, qz)) d \<ge> 0")
    case True
    then show ?thesis
      by (simp add: emitFace_def faceNormal_def Let_def p q)
  next
    case False
    then have "dot3 (cross3 (qx, qy, qz) (px, py, pz)) d \<ge> 0"
      using swap by simp
    with False show ?thesis
      by (simp add: emitFace_def faceNormal_def Let_def p q)
  qed
qed

theorem emitFace_outward_witness:
  "(let st = \<lparr>vxyz = [(0, 0, 0), (0, 0, 1), (1, 0, 0)], faces = [], materials = []\<rparr> in
     faces (emitFace 1 3 2 OUT_TOP (1, 2, 3) st) = [((1, 2, 3), 1, 2, 3)] \<and>
     dot3 (faceNormal (vxyz st) ((1, 2, 3), 1, 2, 3)) OUT_TOP \<ge> 0)"
proof -
  let ?st = "\<lparr>vxyz = [(0, 0, 0), (0, 0, 1), (1, 0, 0)], faces = [], materials = []\<rparr> :: builder"
  have h: "1 \<le> (1::nat) \<and> 1 \<le> length (vxyz ?st)" "1 \<le> (3::nat) \<and> 3 \<le> length (vxyz ?st)"
    "1 \<le> (2::nat) \<and> 2 \<le> length (vxyz ?st)"
    by simp_all
  have neg: "\<not> dot3 (faceNormal (vxyz ?st) ((1, 2, 3), 1, 3, 2)) OUT_TOP \<ge> 0"
    by (simp add: faceNormal_def dot3_def cross3_def sub3_def OUT_TOP_def)
  from emitFace_outward [OF h(1) h(2) h(3), of OUT_TOP "(1, 2, 3)"] neg
  show ?thesis by (auto simp: Let_def)
qed

text \<open>
  C5, as amended. The exporter computes its row coordinates by the formula of the live
  view, in doubles, while the live table is a \<^verbatim>\<open>Float32Array\<close>: for every row \<open>j\<close> of the
  export grid, \<open>zRowPositions[j]\<close> is the exporter's coordinate narrowed to single
  precision, and the two differ by at most \<open>40 / 2^24\<close>. They are equal at row \<open>0\<close>
  (\<open>-40\<close>), at row \<open>activeRows - 1\<close> (\<open>40\<close>) and at the boundary row \<open>activeRows\<close>
  (\<open>zMax\<close>). In every built mesh the top vertex and the bottom vertex of grid point
  \<open>(i, j)\<close> both carry the exporter's coordinate of row \<open>j\<close>.
\<close>

theorem live_row_is_narrowed_exportZ:
  "(\<forall>j. j < bins \<longrightarrow>
      zRowPositions ! j = Math_fround (exportZ j) \<and> \<bar>zRowPositions ! j - exportZ j\<bar> \<le> 40 / 2 ^ 24) \<and>
   exportZ 0 = zRowPositions ! 0 \<and>
   exportZ (activeRows - 1) = zRowPositions ! (activeRows - 1) \<and>
   exportZ activeRows = zMax \<and> zRowPositions ! activeRows = zMax \<and>
   activeRowsCount = activeRows \<and> bins = activeRows + 1 \<and>
   (\<forall>h i j. i < length h \<and> j < bins \<longrightarrow>
      (\<exists>m. buildOBJFromCaptured h = Inr m \<and>
           snd (snd (vxyz m ! (i * bins + j))) = exportZ j \<and>
           snd (snd (vxyz m ! (length h * bins + (i * bins + j)))) = exportZ j))"
proof -
  have near: "zRowPositions ! j = Math_fround (exportZ j) \<and> \<bar>zRowPositions ! j - exportZ j\<bar> \<le> 40 / 2 ^ 24"
    if "j < bins" for j
    using zRowPositions_fround [OF that] fround_error_40 [OF exportZ_abs, of j] by simp
  have b0: "(0::nat) < bins" and b1: "activeRows - 1 < bins" and b2: "activeRows < bins"
    by (simp_all add: bins_eq activeRows_eq)
  have first: "exportZ 0 = zRowPositions ! 0"
    by (simp add: zRowPositions_fround [OF b0] exportZ_ends fround_m40)
  have last: "exportZ (activeRows - 1) = zRowPositions ! (activeRows - 1)"
    unfolding zRowPositions_fround [OF b1] exportZ_ends by (simp add: fround_40)
  have boundary: "exportZ activeRows = zMax \<and> zRowPositions ! activeRows = zMax"
    by (simp add: zRowPositions_fround [OF b2] exportZ_ends fround_40 zMax_def depth_def)
  have same_consts: "activeRowsCount = activeRows \<and> bins = activeRows + 1"
    by (simp add: activeRowsCount_def activeRows_def bins_def)
  have built: "\<exists>m. buildOBJFromCaptured h = Inr m \<and>
           snd (snd (vxyz m ! (i * bins + j))) = exportZ j \<and>
           snd (snd (vxyz m ! (length h * bins + (i * bins + j)))) = exportZ j"
    if i: "i < length h" and j: "j < bins" for h i j
  proof -
    from i have "h \<noteq> []" by auto
    from vxyz_build [OF this] obtain m where
      m: "buildOBJFromCaptured h = Inr m"
         "vxyz m = topPositions h (length h) @ bottomPositions (length h) (length h)"
      by blast
    from i j have lt: "i * bins + j < length h * bins"
      by (rule grid_index_less)
    have "vxyz m ! (i * bins + j) = topPositions h (length h) ! (i * bins + j)"
      using lt by (simp add: m(2) nth_append)
    then have top: "snd (snd (vxyz m ! (i * bins + j))) = exportZ j"
      by (simp add: topPositions_nth [OF i j])
    have "vxyz m ! (length h * bins + (i * bins + j)) =
            bottomPositions (length h) (length h) ! (i * bins + j)"
      by (simp add: m(2) nth_append)
    then have bot: "snd (snd (vxyz m ! (length h * bins + (i * bins + j)))) = exportZ j"
      by (simp add: bottomPositions_nth [OF i j])
    from m(1) top bot show ?thesis by simp
  qed
  from near first last boundary same_consts built show ?thesis by blast
qed

theorem live_row_is_narrowed_exportZ_witness:
  "(5::nat) < bins \<and> zRowPositions ! 5 = Math_fround (exportZ 5) \<and>
   \<bar>zRowPositions ! 5 - exportZ 5\<bar> \<le> 40 / 2 ^ 24"
proof -
  have a: "(5::nat) < bins"
    by (simp add: bins_eq)
  from live_row_is_narrowed_exportZ a show ?thesis by blast
qed

text \<open>C5 as stated fails: at row 5 the exporter's coordinate is not a single-precision
  number (it lies strictly between \<open>-14784664 / 2^19\<close> and \<open>-14784663 / 2^19\<close>), so it
  differs from the table's entry.\<close>

theorem exportZ_row5_differs: "exportZ 5 \<noteq> zRowPositions ! 5"
proof -
  have "(5::nat) < bins" by (simp add: bins_eq)
  from zRowPositions_fround [OF this] exportZ_5_not_float32 show ?thesis
    by simp
qed

subsection \<open>Claims about the export builder\<close>

text \<open>
  C1. Watertightness, as claimed: for every capture history of length \<open>\<ge> 2\<close> every edge
  of the built mesh lies on exactly two triangles. The builder does not achieve it: the
  last cell of the left wall is emitted by the wall loop (\<open>j = bins - 2\<close>) and again by
  the two faces of lines 827-828, so the edge between the top vertex \<open>indexTop[0][bins-2]\<close>
  (index \<open>bins - 1\<close>) and the bottom vertex \<open>indexBottom[0][bins-1]\<close> (index
  \<open>slices * bins + bins\<close>) lies on at least four triangles, for every such history.
\<close>

theorem build_not_watertight:
  assumes "2 \<le> length h"
  shows "\<exists>m. buildOBJFromCaptured h = Inr m \<and>
             4 \<le> edgeCount (faces m) (bins - 1, length h * bins + bins) \<and>
             \<not> watertight (faces m)"
proof -
  let ?n = "length h"
  let ?it = "indexGrid 0 ?n"
  let ?sl = "sideRow ?n 0"
  let ?sr = "sideRow ?n (?n - 1)"
  let ?e = "(bins - 1, ?n * bins + bins)"
  let ?st10 = "leftSeam baseMatName ?it ?sl (sideWall 0 OUT_LEFT baseMatName ?it ?sl (beforeSideWalls h))"
  let ?m = "ensureBaseMaterial baseMatName
              (rightSeam ?n baseMatName ?it ?sr (sideWall (?n - 1) OUT_RIGHT baseMatName ?it ?sr ?st10))"
  from assms have ne: "h \<noteq> []" and n: "0 < ?n" by auto
  have t: "?it ! 0 ! (bins - 2) = bins - 1"
    using n by (simp add: indexGrid_nth bins_eq)
  have s: "?sl ! (bins - 1) = ?n * bins + bins"
    using n by (simp add: sideRow_nth bins_eq)
  have neq: "?it ! 0 ! (bins - 2) \<noteq> ?sl ! (bins - 1)"
    unfolding t s using n by (simp add: bins_eq)
  have four: "4 \<le> edgeCount (faces ?st10) ?e"
    using leftWall_edge_four [OF neq, of baseMatName "beforeSideWalls h"] by (simp only: t s)
  have ext: "extends ?st10 ?m"
    by (intro extends_trans [OF _ extends_ensureBaseMaterial] extends_trans [OF _ extends_rightSeam])
       (rule extends_sideWall)
  then have le: "edgeCount (faces ?st10) ?e \<le> edgeCount (faces ?m) ?e"
    by (rule edgeCount_extends)
  from leftSeam_last_face [OF neq, of baseMatName "sideWall 0 OUT_LEFT baseMatName ?it ?sl (beforeSideWalls h)"]
  obtain fc where fc: "fc \<in> set (faces ?st10)" "hasEdge ?e fc"
    by (auto simp only: t s)
  from ext fc(1) have "fc \<in> set (faces ?m)"
    by (auto simp: extends_def prefix_def)
  moreover from four le have "edgeCount (faces ?m) ?e \<noteq> 2" by simp
  ultimately have "\<not> watertight (faces ?m)"
    using fc(2) by (intro not_watertightI [of fc _ ?e]) simp_all
  with four le build_nonempty [OF ne] show ?thesis by auto
qed

theorem build_not_watertight_witness:
  "2 \<le> length [replicate 128 (0::real), replicate 128 0] \<and>
   (\<exists>m. buildOBJFromCaptured [replicate 128 0, replicate 128 0] = Inr m \<and>
        4 \<le> edgeCount (faces m) (96, 291) \<and> \<not> watertight (faces m))"
proof -
  have h: "2 \<le> length [replicate 128 (0::real), replicate 128 0]" by simp
  from build_not_watertight [OF h] show ?thesis
    by (simp add: bins_eq)
qed

text \<open>
  C10. The export builder gives the boundary row amplitude zero unconditionally: for every
  slice, the arguments of \<open>pushV\<close> for the top vertex of row \<open>j = activeRows\<close> are height
  \<open>0\<close>, the coordinate \<open>zMax\<close> and the colour of the ramp at \<open>0\<close>, whatever the slice
  stores at that row; and in the mesh built from any history, the vertex
  \<open>indexTop[i][activeRows]\<close> (position \<open>i * bins + activeRows\<close> of the vertex list) has
  height exactly \<open>0\<close>. The live surface, in contrast, shows the slice's value of that row
  in its newest column.
\<close>

theorem boundary_row_zero:
  "(\<forall>x slc. topVertex x slc activeRows = (x, 0, zMax, referenceColorRamp 0)) \<and>
   (\<forall>h i. i < length h \<longrightarrow>
      (\<exists>m. buildOBJFromCaptured h = Inr m \<and>
           vxyz m ! (i * bins + activeRows) = (x0 (length h) + dx * real i, 0, zMax))) \<and>
   (\<forall>st s. surfaceSized st \<longrightarrow>
      heightAt (advance s st) activeRows (numSlices - 1) = s ! activeRows * depth * heightScale)"
proof -
  have live: "heightAt (advance s st) activeRows (numSlices - 1) = s ! activeRows * depth * heightScale"
    if "surfaceSized st" for st s
  proof -
    have "activeRows < pointsPerSlice" and "numSlices - 1 < numSlices"
      and "\<not> numSlices - 1 + 1 < numSlices"
      by (simp_all add: activeRows_eq pointsPerSlice_def numSlices_def)
    then show ?thesis
      using heightAt_advance [OF that, of activeRows "numSlices - 1" s] by simp
  qed
  have ar: "\<not> activeRows < activeRowsCount"
    by (simp add: activeRows_eq activeRowsCount_eq)
  have args: "topVertex x slc activeRows = (x, 0, zMax, referenceColorRamp 0)" for x slc
    unfolding topVertex_eq using ar by (simp add: topY_boundary exportZ_boundary)
  have built: "\<exists>m. buildOBJFromCaptured h = Inr m \<and>
           vxyz m ! (i * bins + activeRows) = (x0 (length h) + dx * real i, 0, zMax)"
    if i: "i < length h" for h i
  proof -
    from i have "h \<noteq> []" by auto
    from vxyz_build [OF this] obtain m where
      m: "buildOBJFromCaptured h = Inr m"
         "vxyz m = topPositions h (length h) @ bottomPositions (length h) (length h)"
      by blast
    have j: "activeRows < bins"
      by (simp add: activeRows_eq bins_eq)
    from i j have "i * bins + activeRows < length h * bins"
      by (rule grid_index_less)
    then have "vxyz m ! (i * bins + activeRows) = topPositions h (length h) ! (i * bins + activeRows)"
      by (simp add: m(2) nth_append)
    also have "\<dots> = (x0 (length h) + dx * real i, topY (h ! i) activeRows, exportZ activeRows)"
      using i j by (rule topPositions_nth)
    finally show ?thesis
      using m(1) by (simp add: topY_boundary exportZ_boundary)
  qed
  from args built live show ?thesis by blast
qed

theorem boundary_row_zero_witness:
  "(1::nat) < length [replicate 128 (1::real), replicate 128 1] \<and>
   (\<exists>m. buildOBJFromCaptured [replicate 128 1, replicate 128 1] = Inr m \<and>
        vxyz m ! (1 * bins + activeRows) = (x0 2 + dx * real (1::nat), 0, zMax))"
proof -
  have i: "(1::nat) < length [replicate 128 (1::real), replicate 128 1]" by simp
  from boundary_row_zero i show ?thesis
    by (metis length_Cons list.size(3) One_nat_def Suc_1)
qed

text \<open>
  C3, as amended. The builder has no length check and signals no insufficient-data
  condition of its own: for every non-empty history it returns a mesh without error (for a
  single slice a degenerate one: the side walls only), and for the empty history it
  throws a TypeError at the read of \<open>indexBottom[0]\<close>. The guard is the click handler's: it
  replaces a history of fewer than 2 slices by a sampling of the displayed geometry before
  it calls the builder, so the builder it calls has at least 2 slices and returns a mesh.
\<close>

theorem build_fails_only_on_empty:
  "(\<forall>h. h \<noteq> [] \<longrightarrow> \<not> isl (buildOBJFromCaptured h)) \<and>
   buildOBJFromCaptured [] = Inl TypeError \<and>
   (\<forall>st. 2 \<le> length (capturedSlices (fst (exportClick st))) \<and> \<not> isl (snd (exportClick st)))"
proof -
  have ok: "\<not> isl (buildOBJFromCaptured h)" if "h \<noteq> []" for h
    using build_nonempty [OF that] by simp
  have guard: "2 \<le> length (capturedSlices (fst (exportClick st)))" for st
    by (simp add: exportClick_history length_synthesize)
  have "\<not> isl (snd (exportClick st))" for st
  proof -
    from guard [of st] have "capturedSlices (fst (exportClick st)) \<noteq> []" by auto
    then show ?thesis
      unfolding exportClick_result by (rule ok)
  qed
  with ok guard build_empty show ?thesis by blast
qed

theorem build_fails_only_on_empty_witness:
  "[replicate 128 (0::real), replicate 128 0] \<noteq> [] \<and>
   \<not> isl (buildOBJFromCaptured [replicate 128 0, replicate 128 0])"
proof -
  have ne: "[replicate 128 (0::real), replicate 128 0] \<noteq> []" by simp
  from build_fails_only_on_empty ne show ?thesis by blast
qed

text \<open>C3 as stated fails: on a history of one slice the builder signals nothing.\<close>

theorem build_one_slice_no_error:
  "\<not> isl (buildOBJFromCaptured [replicate 128 0])"
proof -
  have "[replicate 128 (0::real)] \<noteq> []" by simp
  from build_nonempty [OF this] show ?thesis by simp
qed

text \<open>
  C4, as amended. An export click leaves a capture history of at least 2 slices
  unchanged, element for element. A history of fewer than 2 slices is overwritten by the
  handler, before the build, with \<open>max 2 (count div pointsPerSlice)\<close> slices sampled from
  the displayed geometry. The live surface arrays and the capture flag are unchanged in
  both cases.
\<close>

theorem export_history_frame:
  "(2 \<le> length (capturedSlices st) \<longrightarrow>
      capturedSlices (fst (exportClick st)) = capturedSlices st) \<and>
   (length (capturedSlices st) < 2 \<longrightarrow>
      capturedSlices (fst (exportClick st)) = capturedSlices (synthesizeCapturedFromSurface st) \<and>
      length (capturedSlices (fst (exportClick st))) =
        max 2 (length (geometryPosition st) div 3 div pointsPerSlice)) \<and>
   posArray (fst (exportClick st)) = posArray st \<and>
   colors (fst (exportClick st)) = colors st \<and>
   finalGeometry (fst (exportClick st)) = finalGeometry st \<and>
   isCapturing (fst (exportClick st)) = isCapturing st"
  by (simp add: exportClick_history length_synthesize)
     (simp add: exportClick_def synthesizeCapturedFromSurface_def Let_def)

theorem export_history_frame_witness:
  "(let st = \<lparr>isCapturing = False, capturedSlices = [replicate 128 0, replicate 128 1], posArray = [], colors = [],
              finalGeometry = None\<rparr>
    in 2 \<le> length (capturedSlices st) \<and> capturedSlices (fst (exportClick st)) = capturedSlices st)"
proof -
  let ?st = "\<lparr>isCapturing = False, capturedSlices = [replicate 128 0, replicate 128 (1::real)], posArray = [], colors = [],
              finalGeometry = None\<rparr>"
  have h: "2 \<le> length (capturedSlices ?st)" by simp
  from export_history_frame [of ?st] h show ?thesis
    unfolding Let_def by blast
qed

text \<open>C4 as stated fails: an export click on the empty history, with the live plane
  displayed, leaves a history of 1024 slices.\<close>

theorem export_replaces_short_history:
  "length (capturedSlices (fst (exportClick
      \<lparr>isCapturing = False, capturedSlices = [],
       posArray = replicate (pointsPerSlice * numSlices * 3) 0,
       colors = replicate (pointsPerSlice * numSlices * 3) 0,
       finalGeometry = None\<rparr>))) = 1024"
  by (simp add: exportClick_history length_synthesize geometryPosition_def
      pointsPerSlice_def numSlices_def)

subsection \<open>Claim about the live surface\<close>

text \<open>
  C9. Strict sliding window of the live surface: from any surface of the right size, after
  \<open>advance\<close> has been called \<open>numSlices + 1\<close> times with slices
  \<open>s1, ..., s(numSlices+1)\<close> (the list \<open>ss\<close>, from index 0), column \<open>k\<close> from the left
  holds the heights and colours of slice \<open>s(k+2)\<close>, that is \<open>ss ! (k + 1)\<close>; the leftmost
  column holds those of \<open>s2\<close>. Each single \<open>advance\<close> moves every column one place to
  the left, dropping the oldest, and writes the new slice into the rightmost column.
\<close>

theorem sliding_window:
  assumes "surfaceSized st" and "length ss = numSlices + 1"
  shows "(\<forall>z k. z < pointsPerSlice \<and> k < numSlices \<longrightarrow>
            heightAt (fold advance ss st) z k = ss ! (k + 1) ! z * depth * heightScale \<and>
            colorAt (fold advance ss st) z k = referenceColorRamp (ss ! (k + 1) ! z)) \<and>
         (\<forall>s z x. z < pointsPerSlice \<and> x < numSlices \<longrightarrow>
            heightAt (advance s st) z x =
              (if x + 1 < numSlices then heightAt st z (x + 1) else s ! z * depth * heightScale) \<and>
            colorAt (advance s st) z x =
              (if x + 1 < numSlices then colorAt st z (x + 1) else referenceColorRamp (s ! z)))"
proof -
  have all: "heightAt (fold advance ss st) z k = ss ! (k + 1) ! z * depth * heightScale \<and>
             colorAt (fold advance ss st) z k = referenceColorRamp (ss ! (k + 1) ! z)"
    if "z < pointsPerSlice" "k < numSlices" for z k
    using that assms(2)
    by (simp add: heightAt_fold_advance [OF assms(1)] colorAt_fold_advance [OF assms(1)])
  have one: "heightAt (advance s st) z x =
              (if x + 1 < numSlices then heightAt st z (x + 1) else s ! z * depth * heightScale) \<and>
            colorAt (advance s st) z x =
              (if x + 1 < numSlices then colorAt st z (x + 1) else referenceColorRamp (s ! z))"
    if "z < pointsPerSlice" "x < numSlices" for s z x
    using that by (simp add: heightAt_advance [OF assms(1)] colorAt_advance [OF assms(1)])
  from all one show ?thesis by blast
qed

theorem sliding_window_witness:
  "surfaceSized \<lparr>isCapturing = False, capturedSlices = [],
                 posArray = replicate (pointsPerSlice * numSlices * 3) 0,
                 colors = replicate (pointsPerSlice * numSlices * 3) 0, finalGeometry = None\<rparr> \<and>
   length (map (\<lambda>k. replicate pointsPerSlice (real k / 2048)) [0..<numSlices + 1]) = numSlices + 1 \<and>
   (5::nat) < pointsPerSlice \<and> (0::nat) < numSlices \<and>
   heightAt (fold advance (map (\<lambda>k. replicate pointsPerSlice (real k / 2048)) [0..<numSlices + 1])
      \<lparr>isCapturing = False, capturedSlices = [],
       posArray = replicate (pointsPerSlice * numSlices * 3) 0,
       colors = replicate (pointsPerSlice * numSlices * 3) 0, finalGeometry = None\<rparr>) 5 0
     = map (\<lambda>k. replicate pointsPerSlice (real k / 2048)) [0..<numSlices + 1] ! (0 + 1) ! 5
         * depth * heightScale"
proof -
  let ?st = "\<lparr>isCapturing = False, capturedSlices = [],
                 posArray = replicate (pointsPerSlice * numSlices * 3) (0::real),
                 colors = replicate (pointsPerSlice * numSlices * 3) (0::real), finalGeometry = None\<rparr>"
  let ?ss = "map (\<lambda>k. replicate pointsPerSlice (real k / 2048)) [0..<numSlices + 1]"
  have a: "surfaceSized ?st"
    by (simp add: surfaceSized_def)
  have l: "length ?ss = numSlices + 1"
    by simp
  have z: "(5::nat) < pointsPerSlice" and k: "(0::nat) < numSlices"
    by (simp_all add: pointsPerSlice_def numSlices_def)
  from sliding_window [OF a l] z k
  have "heightAt (fold advance ?ss ?st) 5 0 = ?ss ! (0 + 1) ! 5 * depth * heightScale"
    by blast
  with a l z k show ?thesis by blast
qed

end
